theory Spec2Isabelle
  imports Complex_Main "HOL-Library.Word"
begin

unbundle bit_operations_syntax

section \<open>JavaScript values used by the proxy\<close>

text \<open>
  Header values of a Fetch \<open>Request\<close> are byte strings, so \<open>string\<close> (a list of
  8-bit characters) is their type and \<open>charCodeAt\<close> is \<open>of_char\<close>. \<open>Headers.get\<close>
  returns \<open>null\<close> for an absent header: the headers are a map, keyed by the header
  names as the source spells them. Prompts and generated texts are JavaScript strings,
  whose \<open>length\<close> counts UTF-16 code units.
\<close>

type_synonym utf16 = "16 word list"

text \<open>A string or \<open>null\<close> is truthy when it is present and not empty.\<close>

fun truthy :: "string option \<Rightarrow> bool" where
  "truthy None = False"
| "truthy (Some s) = (s \<noteq> [])"

definition startsWith :: "string \<Rightarrow> string \<Rightarrow> bool" where
  "startsWith s p = (take (length p) s = p)"

text \<open>\<open>String.prototype.trim\<close> on a byte string: the white space of ECMAScript below 256.\<close>

definition isWhiteSpace :: "char \<Rightarrow> bool" where
  "isWhiteSpace c = ((of_char c :: nat) \<in> {9, 10, 11, 12, 13, 32, 160})"

definition trim :: "string \<Rightarrow> string" where
  "trim s = rev (dropWhile isWhiteSpace (rev (dropWhile isWhiteSpace s)))"

text \<open>\<open>s.split(",")[0]\<close>: the text before the first comma (all of it when there is none).\<close>

definition splitCommaFirst :: "string \<Rightarrow> string" where
  "splitCommaFirst s = takeWhile (\<lambda>c. c \<noteq> CHR '','') s"

text \<open>\<open>Number.prototype.toString(36)\<close> on a non-negative integer.\<close>

definition digits36 :: string where
  "digits36 = ''0123456789abcdefghijklmnopqrstuvwxyz''"

function toString36 :: "nat \<Rightarrow> string" where
  "toString36 n =
     (if n < 36 then [digits36 ! n]
      else toString36 (n div 36) @ [digits36 ! (n mod 36)])"
  by pat_completeness auto
termination
  by (relation "measure id") auto

declare toString36.simps [simp del]

section \<open>Identity resolution (generate.ts and limits.ts, \<open>getUserIdentifier\<close>)\<close>

datatype tier = anonymous | authenticated

text \<open>
  The body of \<open>POST generate\<close> after \<open>request.json()\<close>; \<open>prompt\<close> is \<open>None\<close> when the
  field is missing or is not a string.
\<close>

record GenerateBody =
  prompt :: "utf16 option"
  temperature :: "rat option"
  maxTokens :: "nat option"

text \<open>
  A request: \<open>json\<close> is \<open>None\<close> when \<open>request.json()\<close> throws, \<open>query\<close> holds the
  search parameters of the URL.
\<close>

record request =
  httpMethod :: string
  headers :: "string \<rightharpoonup> string"
  query :: "string \<rightharpoonup> string"
  json :: "GenerateBody option"

text \<open>
  \<open>hashString\<close>: the loop keeps \<open>hash\<close> a 32-bit integer (\<open>hash & hash\<close>), so
  \<open>(hash << 5) - hash + char\<close> is arithmetic on \<open>32 word\<close>; the result is
  \<open>Math.abs\<close> of the signed value, written in base 36.
\<close>

fun hashLoop :: "32 word \<Rightarrow> string \<Rightarrow> 32 word" where
  "hashLoop hash [] = hash"
| "hashLoop hash (c # cs) = hashLoop (push_bit 5 hash - hash + of_nat (of_char c)) cs"

definition hashString :: "string \<Rightarrow> string" where
  "hashString str = toString36 (nat \<bar>sint (hashLoop 0 str)\<bar>)"

text \<open>\<open>forwardedFor?.split(",")[0].trim() || realIp || "unknown"\<close>\<close>

definition clientIp :: "request \<Rightarrow> string" where
  "clientIp request =
     (let forwardedFor = headers request ''X-Forwarded-For'';
          realIp = headers request ''X-Real-IP'';
          first = map_option (\<lambda>f. trim (splitCommaFirst f)) forwardedFor
      in if truthy first then the first
         else if truthy realIp then the realIp
         else ''unknown'')"

definition getUserIdentifier :: "request \<Rightarrow> string \<times> tier" where
  "getUserIdentifier request =
     (let authHeader = headers request ''Authorization'' in
      case authHeader of
        Some a \<Rightarrow>
          if startsWith a ''Bearer '' then (''github:'' @ hashString (drop 7 a), authenticated)
          else (let githubUser = headers request ''X-GitHub-User'' in
                if truthy githubUser then (''github:'' @ the githubUser, authenticated)
                else (''ip:'' @ hashString (clientIp request), anonymous))
      | None \<Rightarrow>
          (let githubUser = headers request ''X-GitHub-User'' in
           if truthy githubUser then (''github:'' @ the githubUser, authenticated)
           else (''ip:'' @ hashString (clientIp request), anonymous)))"

section \<open>The shared store\<close>

text \<open>
  Instants are milliseconds since the epoch (\<open>Date.now()\<close>). The UTC date string of
  \<open>getTodayKey\<close> and of \<open>toISOString().split("T")[0]\<close> is represented by the number
  of its day, and every key family of the store is a map of its own, keyed by the parts
  the source interpolates into the key string. A value written with \<open>ex\<close> carries the
  instant at which it expires.
\<close>

definition DAY_MS :: int where
  "DAY_MS = 86400000"

definition getTodayKey :: "int \<Rightarrow> int" where
  "getTodayKey now = now div DAY_MS"

record AuthSession =
  userId :: string
  username :: string
  accessToken :: string
  createdAt :: int
  expiresAt :: int

record redis =
  ratelimit :: "(string \<times> string \<times> int) \<rightharpoonup> int"
  counters :: "(int \<times> string) \<rightharpoonup> int"
  users :: "(int \<times> string) \<rightharpoonup> int"
  alerts :: "(int \<times> string) \<rightharpoonup> (string \<times> int)"
  sessions :: "string \<rightharpoonup> (AuthSession \<times> int)"
  userSessions :: "string \<rightharpoonup> string set"
  oauthStates :: "string \<rightharpoonup> (string \<times> int)"

definition emptyRedis :: redis where
  "emptyRedis = \<lparr>ratelimit = Map.empty, counters = Map.empty, users = Map.empty,
     alerts = Map.empty, sessions = Map.empty, userSessions = Map.empty,
     oauthStates = Map.empty\<rparr>"

text \<open>\<open>GET\<close> of a key with a time to live: the value while it has not expired.\<close>

definition getLive :: "('v \<times> int) option \<Rightarrow> int \<Rightarrow> 'v option" where
  "getLive entry now =
     (case entry of None \<Rightarrow> None | Some (v, expires) \<Rightarrow> if now < expires then Some v else None)"

text \<open>
  A call to the store or to another service can fail (the store is unreachable, the
  request is rejected). Each call site of the source has a name, and an invocation is
  run with the set of call sites that fail during it.
\<close>

datatype callsite =
    RatelimitLimit | RatelimitGetRemaining | BudgetGet
  | TrackPipeline | MetricsGet | AlertGet | AlertSet | SlackFetch
  | StateGet | StateDel | SessionSet

datatype failure = StoreError callsite

section \<open>The rate limiter (\<open>Ratelimit.fixedWindow\<close>)\<close>

text \<open>
  Modelled from the spec: the fixed-window limiter of the rate-limit library that
  generate.ts and limits.ts construct with \<open>Ratelimit.fixedWindow(5, "1 d")\<close> and
  \<open>Ratelimit.fixedWindow(25, "1 d")\<close>; the library is not part of the sources. Section
  4.1: one counter per identity and window, windows aligned to a fixed boundary,
  \<open>admit\<close> atomically increments the counter and compares after the increment,
  \<open>status\<close> reads the counter and does not change it; \<open>remaining\<close> is what is left of
  the limit after the units counted so far, never below zero.
\<close>

record Ratelimit =
  limitTokens :: int
  windowMs :: int
  keyPrefix :: string

record RemainingResponse =
  limit :: int
  remaining :: int
  reset :: int

record RatelimitResponse = RemainingResponse +
  success :: bool

definition anonRatelimit :: Ratelimit where
  "anonRatelimit = \<lparr>limitTokens = 5, windowMs = DAY_MS, keyPrefix = ''rocket:ratelimit:anon''\<rparr>"

definition authRatelimit :: Ratelimit where
  "authRatelimit = \<lparr>limitTokens = 25, windowMs = DAY_MS, keyPrefix = ''rocket:ratelimit:auth''\<rparr>"

definition usedTokens :: "Ratelimit \<Rightarrow> redis \<Rightarrow> int \<Rightarrow> string \<Rightarrow> int" where
  "usedTokens rl r now identifier =
     (case ratelimit r (keyPrefix rl, identifier, now div windowMs rl) of None \<Rightarrow> 0 | Some n \<Rightarrow> n)"

definition ratelimit_limit ::
  "Ratelimit \<Rightarrow> redis \<Rightarrow> int \<Rightarrow> string \<Rightarrow> RatelimitResponse \<times> redis" where
  "ratelimit_limit rl r now identifier =
     (let bucket = now div windowMs rl;
          usedTokensAfterUpdate = usedTokens rl r now identifier + 1
      in (\<lparr>limit = limitTokens rl, remaining = max 0 (limitTokens rl - usedTokensAfterUpdate),
           reset = (bucket + 1) * windowMs rl,
           success = (usedTokensAfterUpdate \<le> limitTokens rl)\<rparr>,
          r\<lparr>ratelimit := (ratelimit r)((keyPrefix rl, identifier, bucket) \<mapsto> usedTokensAfterUpdate)\<rparr>))"

definition ratelimit_getRemaining ::
  "Ratelimit \<Rightarrow> redis \<Rightarrow> int \<Rightarrow> string \<Rightarrow> RemainingResponse" where
  "ratelimit_getRemaining rl r now identifier =
     (let bucket = now div windowMs rl;
          used = usedTokens rl r now identifier
      in \<lparr>limit = limitTokens rl, remaining = max 0 (limitTokens rl - used),
          reset = (bucket + 1) * windowMs rl\<rparr>)"

section \<open>Credential pool (key-rotation.ts)\<close>

record GeminiKey =
  key :: string
  name :: string
  isHealthy :: bool
  lastError :: "string option"
  lastUsed :: "int option"
  requestCount :: nat

text \<open>
  \<open>keyStates\<close> is the module's map from credential name to its mutable state object;
  the objects are only reached through it, so a reference to one is its name.
\<close>

type_synonym keyStates = "string \<rightharpoonup> GeminiKey"

text \<open>
  The process environment. \<open>DAILY_BUDGET_CAP\<close> holds the number that \<open>parseFloat\<close>
  reads from the variable, when it is set.
\<close>

record env =
  GEMINI_KEY_PRIMARY :: "string option"
  GEMINI_KEY_FALLBACK_1 :: "string option"
  GEMINI_KEY_FALLBACK_2 :: "string option"
  DAILY_BUDGET_CAP :: "rat option"
  SLACK_WEBHOOK_URL :: "string option"

definition getOrCreateKeyState :: "string \<Rightarrow> string \<Rightarrow> keyStates \<Rightarrow> GeminiKey \<times> keyStates" where
  "getOrCreateKeyState nm k ks =
     (case ks nm of
        Some state \<Rightarrow> (state, ks)
      | None \<Rightarrow>
          (let state = \<lparr>key = k, name = nm, isHealthy = True, lastError = None,
                          lastUsed = None, requestCount = 0\<rparr>
           in (state, ks(nm \<mapsto> state))))"

text \<open>One \<open>if (value) keys.push(getOrCreateKeyState(name, value))\<close> of \<open>getConfiguredKeys\<close>.\<close>

definition pushConfigured ::
  "string \<Rightarrow> string option \<Rightarrow> GeminiKey list \<times> keyStates \<Rightarrow> GeminiKey list \<times> keyStates" where
  "pushConfigured nm v acc =
     (case acc of (keys, ks) \<Rightarrow>
        if truthy v then (case getOrCreateKeyState nm (the v) ks of
                            (state, ks1) \<Rightarrow> (keys @ [state], ks1))
        else (keys, ks))"

definition getConfiguredKeys :: "env \<Rightarrow> keyStates \<Rightarrow> GeminiKey list \<times> keyStates" where
  "getConfiguredKeys e ks =
     pushConfigured ''fallback2'' (GEMINI_KEY_FALLBACK_2 e)
       (pushConfigured ''fallback1'' (GEMINI_KEY_FALLBACK_1 e)
          (pushConfigured ''primary'' (GEMINI_KEY_PRIMARY e) ([], ks)))"

text \<open>The comparator that \<open>selectKey\<close> passes to \<open>sort\<close>, in both of its branches.\<close>

definition compareLastUsed :: "GeminiKey \<Rightarrow> GeminiKey \<Rightarrow> int" where
  "compareLastUsed a b =
     (case lastUsed a of
        None \<Rightarrow> -1
      | Some ta \<Rightarrow> (case lastUsed b of None \<Rightarrow> 1 | Some tb \<Rightarrow> ta - tb))"

text \<open>
  \<open>Array.prototype.sort\<close> with a comparator, as the engine (V8) sorts an array of fewer
  than 64 elements, which a pool of at most three credentials is: the initial run is
  counted from the comparison of the second element with the first, strictly descending
  (and then reversed) when that is negative and non-descending otherwise
  (\<open>CountAndMakeRun\<close>); every later element is placed into the sorted part at the point
  a binary search finds for it (\<open>BinaryInsertionSort\<close>). The comparator is called with
  the later element first.
\<close>

fun runLength :: "('a \<Rightarrow> 'a \<Rightarrow> int) \<Rightarrow> bool \<Rightarrow> 'a \<Rightarrow> 'a list \<Rightarrow> nat" where
  "runLength cmp isDescending previousElement [] = 0"
| "runLength cmp isDescending previousElement (currentElement # rest) =
     (let order = cmp currentElement previousElement
      in if (if isDescending then order \<ge> 0 else order < 0) then 0
         else Suc (runLength cmp isDescending currentElement rest))"

definition countAndMakeRun :: "('a \<Rightarrow> 'a \<Rightarrow> int) \<Rightarrow> 'a list \<Rightarrow> 'a list \<times> 'a list" where
  "countAndMakeRun cmp work =
     (case work of
        [] \<Rightarrow> ([], [])
      | [single] \<Rightarrow> ([single], [])
      | elementHigh # elementLow # rest \<Rightarrow>
          (let isDescending = cmp elementLow elementHigh < 0;
               n = 2 + runLength cmp isDescending elementLow rest
           in (if isDescending then rev (take n work) else take n work, drop n work)))"

function insertionPoint :: "('a \<Rightarrow> 'a \<Rightarrow> int) \<Rightarrow> 'a \<Rightarrow> 'a list \<Rightarrow> nat \<Rightarrow> nat \<Rightarrow> nat" where
  "insertionPoint cmp pivot work left right =
     (if left < right then
        (let mid = left + (right - left) div 2
         in if cmp pivot (work ! mid) < 0 then insertionPoint cmp pivot work left mid
            else insertionPoint cmp pivot work (mid + 1) right)
      else left)"
  by pat_completeness auto
termination
  by (relation "measure (\<lambda>(cmp, pivot, work, left, right). right - left)") auto

declare insertionPoint.simps [simp del]

definition binaryInsert :: "('a \<Rightarrow> 'a \<Rightarrow> int) \<Rightarrow> 'a list \<Rightarrow> 'a \<Rightarrow> 'a list" where
  "binaryInsert cmp run pivot =
     (let left = insertionPoint cmp pivot run 0 (length run)
      in take left run @ pivot # drop left run)"

definition arraySort :: "('a \<Rightarrow> 'a \<Rightarrow> int) \<Rightarrow> 'a list \<Rightarrow> 'a list" where
  "arraySort cmp xs =
     (case countAndMakeRun cmp xs of (run, rest) \<Rightarrow> foldl (binaryInsert cmp) run rest)"

definition selectKey :: "env \<Rightarrow> keyStates \<Rightarrow> GeminiKey option \<times> keyStates" where
  "selectKey e ks =
     (case getConfiguredKeys e ks of (keys, ks1) \<Rightarrow>
        if keys = [] then (None, ks1)
        else
          (let healthyKeys = filter isHealthy keys in
           if healthyKeys = [] then
             (case arraySort compareLastUsed keys of
                [] \<Rightarrow> (None, ks1)
              | oldestError # _ \<Rightarrow>
                  (let reset = oldestError\<lparr>isHealthy := True\<rparr>
                   in (Some reset, ks1(name oldestError \<mapsto> reset))))
           else
             (case arraySort compareLastUsed healthyKeys of
                [] \<Rightarrow> (None, ks1)
              | selected # _ \<Rightarrow> (Some selected, ks1))))"

definition markKeyUnhealthy :: "string \<Rightarrow> string \<Rightarrow> keyStates \<Rightarrow> keyStates" where
  "markKeyUnhealthy nm err ks =
     (case ks nm of
        Some state \<Rightarrow> ks(nm \<mapsto> state\<lparr>isHealthy := False, lastError := Some err\<rparr>)
      | None \<Rightarrow> ks)"

text \<open>
  ``Oldest \<open>lastUsed\<close>, never-used credentials first'': \<open>a\<close> was not used later
  than \<open>b\<close>.
\<close>

definition notLater :: "GeminiKey \<Rightarrow> GeminiKey \<Rightarrow> bool" where
  "notLater a b =
     (case lastUsed a of
        None \<Rightarrow> True
      | Some ta \<Rightarrow> (case lastUsed b of None \<Rightarrow> False | Some tb \<Rightarrow> ta \<le> tb))"

definition headOldest :: "GeminiKey list \<Rightarrow> bool" where
  "headOldest xs = (case xs of [] \<Rightarrow> True | h # t \<Rightarrow> \<forall>y \<in> set t. notLater h y)"

text \<open>Every state object is stored under its own name.\<close>

definition wellNamed :: "keyStates \<Rightarrow> bool" where
  "wellNamed ks = (\<forall>n k. ks n = Some k \<longrightarrow> name k = n)"

subsection \<open>The retry loop (\<open>generateWithRotation\<close>)\<close>

record GenerateRequest =
  prompt :: utf16
  systemInstruction :: "utf16 option"
  temperature :: "rat option"
  maxTokens :: "nat option"

record UsageMetadata =
  promptTokenCount :: "nat option"
  candidatesTokenCount :: "nat option"
  totalTokenCount :: "nat option"

text \<open>What the backend answers to \<open>generateContent\<close>: the text and the usage it reports.\<close>

record BackendResponse =
  responseText :: utf16
  usageMetadata :: "UsageMetadata option"

record Usage =
  promptTokens :: nat
  completionTokens :: nat
  totalTokens :: nat

record GenerateResult =
  resultText :: utf16
  model :: string
  usage :: Usage
  keyUsed :: string

text \<open>
  The backend is an oracle: for the credential, the request and the number of the
  attempt it either throws an \<open>Error\<close> with a message (\<open>Inl\<close>) or answers.
\<close>

type_synonym backend = "GeminiKey \<Rightarrow> GenerateRequest \<Rightarrow> nat \<Rightarrow> string + BackendResponse"

definition orZero :: "nat option \<Rightarrow> nat" where
  "orZero v = (case v of None \<Rightarrow> 0 | Some n \<Rightarrow> n)"

definition generateWithKey ::
  "backend \<Rightarrow> GeminiKey \<Rightarrow> GenerateRequest \<Rightarrow> nat \<Rightarrow> string + GenerateResult" where
  "generateWithKey gemini keyInfo request attempt =
     (case gemini keyInfo request attempt of
        Inl message \<Rightarrow> Inl message
      | Inr response \<Rightarrow>
          Inr \<lparr>resultText = responseText response, model = ''gemini-1.5-flash'',
               usage = (case usageMetadata response of
                          None \<Rightarrow> \<lparr>promptTokens = 0, completionTokens = 0, totalTokens = 0\<rparr>
                        | Some m \<Rightarrow> \<lparr>promptTokens = orZero (promptTokenCount m),
                                      completionTokens = orZero (candidatesTokenCount m),
                                      totalTokens = orZero (totalTokenCount m)\<rparr>),
               keyUsed = name keyInfo\<rparr>)"

text \<open>
  \<open>toLowerCase\<close> and \<open>includes\<close> on an error message, taken as a string of
  characters below 256.
\<close>

definition lowerChar :: "char \<Rightarrow> char" where
  "lowerChar c =
     (let n = (of_char c :: nat)
      in if (65 \<le> n \<and> n \<le> 90) \<or> (192 \<le> n \<and> n \<le> 222 \<and> n \<noteq> 215) then char_of (n + 32) else c)"

definition toLowerCase :: "string \<Rightarrow> string" where
  "toLowerCase s = map lowerChar s"

fun includesStr :: "string \<Rightarrow> string \<Rightarrow> bool" where
  "includesStr [] sub = (sub = [])"
| "includesStr (c # cs) sub = (startsWith (c # cs) sub \<or> includesStr cs sub)"

definition isRateLimited :: "string \<Rightarrow> bool" where
  "isRateLimited message =
     (let errorMessage = toLowerCase message
      in includesStr errorMessage ''rate limit'' \<or> includesStr errorMessage ''quota''
         \<or> includesStr errorMessage ''resource exhausted'' \<or> includesStr errorMessage ''429'')"

definition isInvalidKey :: "string \<Rightarrow> bool" where
  "isInvalidKey message =
     (let errorMessage = toLowerCase message
      in includesStr errorMessage ''api key'' \<or> includesStr errorMessage ''unauthorized''
         \<or> includesStr errorMessage ''403'' \<or> includesStr errorMessage ''invalid'')"

definition maxRetries :: nat where
  "maxRetries = 3"

text \<open>
  The result of the loop: what \<open>generateWithRotation\<close> returns or throws, the key
  states it leaves, and the names of the credentials it called the backend with, in
  order.
\<close>

record rotation =
  returned :: "string + GenerateResult"
  states :: keyStates
  called :: "string list"

function rotationLoop ::
  "env \<Rightarrow> backend \<Rightarrow> GenerateRequest \<Rightarrow> int \<Rightarrow> nat \<Rightarrow> string option \<Rightarrow> keyStates
     \<Rightarrow> string list \<Rightarrow> rotation" where
  "rotationLoop e gemini request now attempt lastErr ks calls =
     (if attempt < maxRetries then
        (case selectKey e ks of
           (None, ks1) \<Rightarrow>
             \<lparr>returned = Inl ''No Gemini API keys configured'', states = ks1, called = calls\<rparr>
         | (Some keyInfo, ks1) \<Rightarrow>
             (case generateWithKey gemini keyInfo request attempt of
                Inr result \<Rightarrow>
                  \<lparr>returned = Inr result,
                   states = ks1(name keyInfo \<mapsto>
                     keyInfo\<lparr>lastUsed := Some now, requestCount := requestCount keyInfo + 1,
                              isHealthy := True, lastError := None\<rparr>),
                   called = calls @ [name keyInfo]\<rparr>
              | Inl message \<Rightarrow>
                  if isRateLimited message then
                    rotationLoop e gemini request now (attempt + 1) (Some message)
                      (markKeyUnhealthy (name keyInfo) ''Rate limited'' ks1)
                      (calls @ [name keyInfo])
                  else if isInvalidKey message then
                    rotationLoop e gemini request now (attempt + 1) (Some message)
                      (markKeyUnhealthy (name keyInfo) ''Invalid API key'' ks1)
                      (calls @ [name keyInfo])
                  else
                    \<lparr>returned = Inl message, states = ks1, called = calls @ [name keyInfo]\<rparr>))
      else
        \<lparr>returned = Inl (case lastErr of Some message \<Rightarrow> message
                                         | None \<Rightarrow> ''All API keys exhausted''),
         states = ks, called = calls\<rparr>)"
  by pat_completeness auto
termination
  by (relation "measure (\<lambda>(e, gemini, request, now, attempt, rest). maxRetries - attempt)") auto

declare rotationLoop.simps [simp del]

definition generateWithRotation ::
  "env \<Rightarrow> backend \<Rightarrow> GenerateRequest \<Rightarrow> int \<Rightarrow> keyStates \<Rightarrow> rotation" where
  "generateWithRotation e gemini request now ks = rotationLoop e gemini request now 0 None ks []"

section \<open>Usage analytics, budget and alerts (analytics.ts)\<close>

text \<open>
  JavaScript numbers are idealised as rationals: \<open>cost\<close>, the budget cap and their
  comparisons are exact here, where the source computes them in double precision.
\<close>

record RequestLog =
  timestamp :: int
  userId :: string
  tier :: tier
  tokens :: int
  cost :: rat
  model :: string
  keyUsed :: string

record UsageMetrics =
  totalRequests :: int
  totalTokens :: int
  estimatedCost :: rat
  requestsAnonymous :: int
  requestsAuthenticated :: int

definition avgCostPer1KTokens :: rat where
  "avgCostPer1KTokens = 1875 / 10000000"

definition calculateCost :: "int \<Rightarrow> rat" where
  "calculateCost tks = (of_int tks / 1000) * avgCostPer1KTokens"

text \<open>\<open>Math.round\<close>: the nearest integer, a half rounding up.\<close>

definition mathRound :: "rat \<Rightarrow> int" where
  "mathRound x = \<lfloor>x + 1 / 2\<rfloor>"

definition orZeroInt :: "int option \<Rightarrow> int" where
  "orZeroInt v = (case v of None \<Rightarrow> 0 | Some n \<Rightarrow> n)"

definition incrby :: "int \<times> string \<Rightarrow> int \<Rightarrow> redis \<Rightarrow> redis" where
  "incrby k n r = r\<lparr>counters := (counters r)(k \<mapsto> orZeroInt (counters r k) + n)\<rparr>"

definition zincrby :: "int \<times> string \<Rightarrow> int \<Rightarrow> redis \<Rightarrow> redis" where
  "zincrby k n r = r\<lparr>users := (users r)(k \<mapsto> orZeroInt (users r k) + n)\<rparr>"

definition tierName :: "tier \<Rightarrow> string" where
  "tierName t = (case t of anonymous \<Rightarrow> ''anonymous'' | authenticated \<Rightarrow> ''authenticated'')"

text \<open>
  The pipeline of \<open>trackRequest\<close>. Its \<open>expire\<close> commands only bound the retention
  of the day's keys, which are never read on another day, and are left out.
\<close>

definition trackPipeline :: "int \<Rightarrow> RequestLog \<Rightarrow> redis \<Rightarrow> redis" where
  "trackPipeline dateKey logEntry r =
     incrby (dateKey, ''key:'' @ RequestLog.keyUsed logEntry) 1
       (zincrby (dateKey, RequestLog.userId logEntry) 1
          (incrby (dateKey, ''tier:'' @ tierName (tier logEntry)) 1
             (incrby (dateKey, ''cost'') (mathRound (cost logEntry * 100000))
                (incrby (dateKey, ''tokens'') (tokens logEntry)
                   (incrby (dateKey, ''requests'') 1 r)))))"

text \<open>\<open>getTodayMetrics\<close>, without the list of top users; a failed read gives all zeros.\<close>

definition getTodayMetrics :: "callsite set \<Rightarrow> redis \<Rightarrow> int \<Rightarrow> UsageMetrics" where
  "getTodayMetrics down r now =
     (let dateKey = getTodayKey now in
      if MetricsGet \<in> down then
        \<lparr>totalRequests = 0, totalTokens = 0, estimatedCost = 0,
         requestsAnonymous = 0, requestsAuthenticated = 0\<rparr>
      else
        \<lparr>totalRequests = orZeroInt (counters r (dateKey, ''requests'')),
         totalTokens = orZeroInt (counters r (dateKey, ''tokens'')),
         estimatedCost = of_int (orZeroInt (counters r (dateKey, ''cost''))) / 100000,
         requestsAnonymous = orZeroInt (counters r (dateKey, ''tier:anonymous'')),
         requestsAuthenticated = orZeroInt (counters r (dateKey, ''tier:authenticated''))\<rparr>)"

text \<open>
  An alert message is one of the two templates of \<open>checkBudgetAndAlert\<close> with the
  figures it interpolates: the cap, the spend as \<open>toFixed(4)\<close> prints it (in units of
  0.0001), and for the first template the totals of requests and tokens. Two messages
  are the same text exactly when they are the same value.
\<close>

datatype alertMessage =
    BudgetAlert rat int int int
  | BudgetWarning int rat

definition toFixed4 :: "rat \<Rightarrow> int" where
  "toFixed4 x = \<lfloor>x * 10000 + 1 / 2\<rfloor>"

text \<open>
  \<open>Buffer.from(message).toString('base64').slice(0, 20)\<close> encodes the first 15 bytes
  of the message, which lie in the fixed first line of either template: the value is
  one of two constants.
\<close>

definition base64Head :: "alertMessage \<Rightarrow> string" where
  "base64Head message =
     (case message of
        BudgetAlert cap spend requests tks \<Rightarrow> ''76O/w7zDtsKuIFJvY2tl''
      | BudgetWarning spend cap \<Rightarrow> ''4oCaw7bigKDDlOKIj8Oo'')"

definition HOUR_MS :: int where
  "HOUR_MS = 3600 * 1000"

text \<open>
  \<open>sendSlackAlert\<close> returns the store and the messages posted to the webhook, or
  throws when the read of the marker fails. A failing \<open>fetch\<close> or a failing write of
  the marker is caught inside.
\<close>

definition sendSlackAlert ::
  "env \<Rightarrow> callsite set \<Rightarrow> redis \<Rightarrow> int \<Rightarrow> alertMessage \<Rightarrow> failure + (redis \<times> alertMessage list)" where
  "sendSlackAlert e down r now message =
     (if \<not> truthy (SLACK_WEBHOOK_URL e) then Inr (r, [])
      else
        (let alertKey = (getTodayKey now, base64Head message) in
         if AlertGet \<in> down then Inl (StoreError AlertGet)
         else
           (case getLive (alerts r alertKey) now of
              Some exists \<Rightarrow> Inr (r, [])
            | None \<Rightarrow>
                if SlackFetch \<in> down then Inr (r, [])
                else if AlertSet \<in> down then Inr (r, [message])
                else Inr (r\<lparr>alerts := (alerts r)(alertKey \<mapsto> (''1'', now + HOUR_MS))\<rparr>, [message]))))"

definition budgetCapOf :: "env \<Rightarrow> rat" where
  "budgetCapOf e = (case DAILY_BUDGET_CAP e of None \<Rightarrow> 10 | Some c \<Rightarrow> c)"

definition checkBudgetAndAlert ::
  "env \<Rightarrow> callsite set \<Rightarrow> redis \<Rightarrow> int \<Rightarrow> failure + (redis \<times> alertMessage list)" where
  "checkBudgetAndAlert e down r now =
     (let budgetCap = budgetCapOf e;
          metrics = getTodayMetrics down r now
      in if estimatedCost metrics \<ge> budgetCap then
           sendSlackAlert e down r now
             (BudgetAlert budgetCap (toFixed4 (estimatedCost metrics))
                (totalRequests metrics) (totalTokens metrics))
         else if estimatedCost metrics \<ge> budgetCap * (8 / 10) then
           sendSlackAlert e down r now
             (BudgetWarning (toFixed4 (estimatedCost metrics)) budgetCap)
         else Inr (r, []))"

text \<open>
  \<open>trackRequest\<close> never throws: a failure of the pipeline, or one thrown by the
  threshold check, ends it. The optional copy of the event to PostHog touches neither
  the store nor the alerts and is left out.
\<close>

definition trackRequest ::
  "env \<Rightarrow> callsite set \<Rightarrow> redis \<Rightarrow> int \<Rightarrow> RequestLog \<Rightarrow> redis \<times> alertMessage list" where
  "trackRequest e down r now logEntry =
     (if TrackPipeline \<in> down then (r, [])
      else
        (let r1 = trackPipeline (getTodayKey now) logEntry r in
         case checkBudgetAndAlert e down r1 now of
           Inl failed \<Rightarrow> (r1, [])
         | Inr (r2, posted) \<Rightarrow> (r2, posted)))"

section \<open>The endpoints\<close>

text \<open>
  A response is its status, its JSON body or HTML page, and the headers that carry a
  figure (\<open>X-RateLimit-*\<close>, \<open>Retry-After\<close>), each with the number that the source
  prints into it with \<open>toString()\<close>. The constant content-type and CORS headers and
  the measured \<open>X-Response-Time\<close> are not represented.
\<close>

datatype body =
    ErrorResponse (error: string) (code: string) (retryAfter: "int option")
  | GenerateResponse (textOf: utf16) (modelOf: string) (usageRemaining: int)
      (usageLimit: int) (usageReset: int)
  | LimitsResponse (tierOf: tier) (dailyLimit: int) (dailyRemaining: int) (dailyReset: int)
  | MethodNotAllowed
  | NoContent
  | ErrorPage (pageError: string) (description: string)
  | CliSuccessPage (cliToken: string) (cliUser: string)
  | WebSuccessPage (webToken: string) (webUser: string) (redirectUrl: string)
  | Redirect

record Response =
  status :: nat
  content :: body
  figures :: "(string \<times> int) list"

definition jsonResponse :: "body \<Rightarrow> nat \<Rightarrow> (string \<times> int) list \<Rightarrow> Response" where
  "jsonResponse data st extraHeaders = \<lparr>status = st, content = data, figures = extraHeaders\<rparr>"

text \<open>\<open>Math.ceil(a / b)\<close> for integers \<open>a\<close> and a positive \<open>b\<close>.\<close>

definition ceilDiv :: "int \<Rightarrow> int \<Rightarrow> int" where
  "ceilDiv a b = - ((- a) div b)"

subsection \<open>\<open>POST /api/v1/generate\<close>\<close>

definition checkBudgetExceeded :: "env \<Rightarrow> callsite set \<Rightarrow> redis \<Rightarrow> int \<Rightarrow> bool" where
  "checkBudgetExceeded e down r now =
     (let budgetCap = budgetCapOf e in
      if BudgetGet \<in> down then False
      else
        (let today = getTodayKey now;
             costRaw = counters r (today, ''cost'');
             currentCost = of_int (orZeroInt costRaw) / 100000
         in currentCost \<ge> budgetCap))"

text \<open>
  What one invocation of the handler leaves behind: the response, or the failure that
  escapes the handler; the store and the key states; the event handed to
  \<open>trackRequest\<close>; the alerts posted; the credentials the backend was called with.
\<close>

record outcome =
  response :: "failure + Response"
  store :: redis
  keys :: keyStates
  tracked :: "RequestLog option"
  posted :: "alertMessage list"
  backendCalls :: "string list"

definition quiet :: "failure + Response \<Rightarrow> redis \<Rightarrow> keyStates \<Rightarrow> outcome" where
  "quiet resp r ks =
     \<lparr>response = resp, store = r, keys = ks, tracked = None, posted = [], backendCalls = []\<rparr>"

text \<open>The \<open>catch\<close> of the handler: the response for an error thrown by the generation.\<close>

definition generationError :: "string \<Rightarrow> Response" where
  "generationError message =
     (if includesStr message ''rate limit'' \<or> includesStr message ''429'' then
        jsonResponse (ErrorResponse ''Upstream rate limit exceeded'' ''UPSTREAM_RATE_LIMIT'' None) 503 []
      else if includesStr message ''API key'' then
        jsonResponse (ErrorResponse ''Service configuration error'' ''CONFIG_ERROR'' None) 503 []
      else
        jsonResponse (ErrorResponse ''Failed to generate response'' ''GENERATION_FAILED'' None) 500 [])"

definition generate_handler ::
  "env \<Rightarrow> callsite set \<Rightarrow> backend \<Rightarrow> int \<Rightarrow> redis \<Rightarrow> keyStates \<Rightarrow> request \<Rightarrow> outcome" where
  "generate_handler e down gemini now r ks request =
     (if httpMethod request \<noteq> ''POST'' then
        quiet (Inr (jsonResponse (ErrorResponse ''Method not allowed'' ''METHOD_NOT_ALLOWED'' None) 405 [])) r ks
      else case json request of
        None \<Rightarrow>
          quiet (Inr (jsonResponse (ErrorResponse ''Invalid JSON body'' ''INVALID_JSON'' None) 400 [])) r ks
      | Some body \<Rightarrow>
        (case GenerateBody.prompt body of
           None \<Rightarrow>
             quiet (Inr (jsonResponse (ErrorResponse ''Missing or invalid prompt'' ''INVALID_PROMPT'' None) 400 [])) r ks
         | Some promptText \<Rightarrow>
           if promptText = [] then
             quiet (Inr (jsonResponse (ErrorResponse ''Missing or invalid prompt'' ''INVALID_PROMPT'' None) 400 [])) r ks
           else if length promptText > 32000 then
             quiet (Inr (jsonResponse (ErrorResponse ''Prompt too long (max 32000 chars)'' ''PROMPT_TOO_LONG'' None) 400 [])) r ks
           else
             (case getUserIdentifier request of (uid, tr) \<Rightarrow>
              let rl = (if tr = authenticated then authRatelimit else anonRatelimit) in
              if RatelimitLimit \<in> down then quiet (Inl (StoreError RatelimitLimit)) r ks
              else
                (case ratelimit_limit rl r now uid of (res, r1) \<Rightarrow>
                 if \<not> success res then
                   quiet (Inr (jsonResponse
                     (ErrorResponse ''Rate limit exceeded'' ''RATE_LIMIT_EXCEEDED''
                        (Some (ceilDiv (reset res - now) 1000)))
                     429
                     [(''X-RateLimit-Limit'', limit res), (''X-RateLimit-Remaining'', 0),
                      (''X-RateLimit-Reset'', reset res),
                      (''Retry-After'', ceilDiv (reset res - now) 1000)])) r1 ks
                 else if checkBudgetExceeded e down r1 now then
                   quiet (Inr (jsonResponse
                     (ErrorResponse ''Service temporarily unavailable due to high demand''
                        ''BUDGET_EXCEEDED'' None) 503 [])) r1 ks
                 else
                   (let rot = generateWithRotation e gemini
                        \<lparr>prompt = promptText, systemInstruction = None,
                         temperature = GenerateBody.temperature body,
                         maxTokens = GenerateBody.maxTokens body\<rparr> now ks
                    in case returned rot of
                      Inl message \<Rightarrow>
                        \<lparr>response = Inr (generationError message), store = r1,
                         keys = states rot, tracked = None, posted = [],
                         backendCalls = called rot\<rparr>
                    | Inr result \<Rightarrow>
                        (let estimatedTokens =
                               ceilDiv (int (length promptText) + int (length (resultText result))) 4;
                             logEntry = \<lparr>timestamp = now, userId = uid, tier = tr,
                                         tokens = estimatedTokens,
                                         cost = calculateCost estimatedTokens,
                                         model = GenerateResult.model result,
                                         keyUsed = GenerateResult.keyUsed result\<rparr>
                         in case trackRequest e down r1 now logEntry of (r2, alerted) \<Rightarrow>
                           \<lparr>response = Inr (jsonResponse
                              (GenerateResponse (resultText result) (GenerateResult.model result)
                                 (remaining res - 1) (limit res) (reset res))
                              200
                              [(''X-RateLimit-Limit'', limit res),
                               (''X-RateLimit-Remaining'', remaining res - 1),
                               (''X-RateLimit-Reset'', reset res)]),
                            store = r2, keys = states rot, tracked = Some logEntry,
                            posted = alerted, backendCalls = called rot\<rparr>))))))"

subsection \<open>\<open>GET /api/v1/limits\<close>\<close>

definition limits_handler ::
  "callsite set \<Rightarrow> int \<Rightarrow> redis \<Rightarrow> request \<Rightarrow> (failure + Response) \<times> redis" where
  "limits_handler down now r request =
     (if httpMethod request = ''OPTIONS'' then (Inr (jsonResponse NoContent 204 []), r)
      else if httpMethod request \<noteq> ''GET'' then (Inr (jsonResponse MethodNotAllowed 405 []), r)
      else
        (case getUserIdentifier request of (uid, tr) \<Rightarrow>
         let rl = (if tr = authenticated then authRatelimit else anonRatelimit) in
         if RatelimitGetRemaining \<in> down then (Inl (StoreError RatelimitGetRemaining), r)
         else
           (let res = ratelimit_getRemaining rl r now uid
            in (Inr (jsonResponse
                  (LimitsResponse tr (limit res) (remaining res) (reset res)) 200
                  [(''X-RateLimit-Limit'', limit res),
                   (''X-RateLimit-Remaining'', remaining res),
                   (''X-RateLimit-Reset'', reset res)]), r))))"

section \<open>Sessions and the OAuth state (auth.ts, callback.ts, github.ts)\<close>

text \<open>
  \<open>getSession\<close> and \<open>deleteSession\<close> call each other: \<open>getSession\<close> deletes a session
  it finds expired, and \<open>deleteSession\<close> starts by looking the session up with
  \<open>getSession\<close>. The pair is one recursive function whose value \<open>None\<close> means that
  the call does not return.
\<close>

partial_function (option) getSession ::
  "redis \<Rightarrow> int \<Rightarrow> string \<Rightarrow> (AuthSession option \<times> redis) option" where
  "getSession r now sessionToken =
     (if sessionToken = [] then Some (None, r)
      else case getLive (sessions r sessionToken) now of
        None \<Rightarrow> Some (None, r)
      | Some session \<Rightarrow>
          if expiresAt session < now then
            Option.bind (getSession r now sessionToken) (\<lambda>(found, r1).
              let r2 = r1\<lparr>sessions := (sessions r1)(sessionToken := None)\<rparr>
              in case found of
                   None \<Rightarrow> Some (None, r2)
                 | Some s \<Rightarrow>
                     let uid = drop 7 (AuthSession.userId s)
                     in Some (None, r2\<lparr>userSessions := (userSessions r2)
                          (uid := map_option (\<lambda>members. members - {sessionToken})
                                    (userSessions r2 uid))\<rparr>))
          else Some (Some session, r))"

definition STATE_TTL_MS :: int where
  "STATE_TTL_MS = 600 * 1000"

definition storeState :: "redis \<Rightarrow> int \<Rightarrow> string \<Rightarrow> string \<Rightarrow> redis" where
  "storeState r now state redirectUri =
     r\<lparr>oauthStates := (oauthStates r)(state \<mapsto> (redirectUri, now + STATE_TTL_MS))\<rparr>"

definition validateState ::
  "callsite set \<Rightarrow> redis \<Rightarrow> int \<Rightarrow> string \<Rightarrow> (failure + string option) \<times> redis" where
  "validateState down r now state =
     (if StateGet \<in> down then (Inl (StoreError StateGet), r)
      else
        (let redirectUri = getLive (oauthStates r state) now in
         if truthy redirectUri then
           (if StateDel \<in> down then (Inl (StoreError StateDel), r)
            else (Inr redirectUri, r\<lparr>oauthStates := (oauthStates r)(state := None)\<rparr>))
         else (Inr redirectUri, r)))"

text \<open>
  \<open>GET /api/auth/github\<close> stores a fresh state with the \<open>redirect\<close> parameter, or
  with the default when the parameter is missing or empty. The state is the value of
  \<open>generateState()\<close>, 32 random bytes in hexadecimal.
\<close>

definition redirectParam :: "request \<Rightarrow> string" where
  "redirectParam request =
     (let p = query request ''redirect'' in if truthy p then the p else ''/api/auth/callback'')"

definition github_handler :: "redis \<Rightarrow> int \<Rightarrow> string \<Rightarrow> request \<Rightarrow> Response \<times> redis" where
  "github_handler r now state request =
     (if httpMethod request \<noteq> ''GET'' then (jsonResponse MethodNotAllowed 405 [], r)
      else (jsonResponse Redirect 302 [], storeState r now state (redirectParam request)))"

text \<open>
  The provider is an oracle: \<open>exchangeCodeForToken\<close> gives the access token for a code
  or throws an \<open>Error\<close> with a message, \<open>getGitHubUser\<close> gives the profile for an access
  token or throws, and \<open>generateState\<close> is the next random token. The calls made to
  the provider are recorded.
\<close>

record GitHubUser =
  idText :: string
  login :: string

record provider =
  exchangeCodeForToken :: "string \<Rightarrow> string + string"
  getGitHubUser :: "string \<Rightarrow> string + GitHubUser"
  generateState :: string

datatype providerCall = ExchangeCode string | GetUser string

definition SESSION_TTL_MS :: int where
  "SESSION_TTL_MS = 30 * 24 * 60 * 60 * 1000"

text \<open>The message of the \<open>Error\<close> that the store client throws.\<close>

definition messageOf :: "failure \<Rightarrow> string" where
  "messageOf failed = ''Store request failed''"

definition createSession ::
  "callsite set \<Rightarrow> provider \<Rightarrow> redis \<Rightarrow> int \<Rightarrow> string
     \<Rightarrow> (string + (string \<times> AuthSession)) \<times> redis" where
  "createSession down github r now token =
     (case getGitHubUser github token of
        Inl message \<Rightarrow> (Inl message, r)
      | Inr user \<Rightarrow>
          (let sessionToken = generateState github;
               session = \<lparr>AuthSession.userId = ''github:'' @ idText user, username = login user,
                          accessToken = token, createdAt = now,
                          expiresAt = now + SESSION_TTL_MS\<rparr>
           in if SessionSet \<in> down then (Inl (messageOf (StoreError SessionSet)), r)
              else
                (Inr (sessionToken, session),
                 r\<lparr>sessions := (sessions r)(sessionToken \<mapsto> (session, now + SESSION_TTL_MS)),
                   userSessions := (userSessions r)(idText user \<mapsto>
                     insert sessionToken (case userSessions r (idText user) of
                                            None \<Rightarrow> {} | Some members \<Rightarrow> members))\<rparr>)))"

definition createErrorResponse :: "string \<Rightarrow> string \<Rightarrow> Response" where
  "createErrorResponse err descr = \<lparr>status = 400, content = ErrorPage err descr, figures = []\<rparr>"

definition callback_handler ::
  "callsite set \<Rightarrow> provider \<Rightarrow> redis \<Rightarrow> int \<Rightarrow> request
     \<Rightarrow> Response \<times> redis \<times> providerCall list" where
  "callback_handler down github r now request =
     (if httpMethod request \<noteq> ''GET'' then (jsonResponse MethodNotAllowed 405 [], r, [])
      else
        (let codeParam = query request ''code'';
             stateParam = query request ''state'';
             errorParam = query request ''error'';
             errorDescription = query request ''error_description''
         in if truthy errorParam then
              (createErrorResponse (the errorParam)
                 (if truthy errorDescription then the errorDescription
                  else ''Authorization failed''), r, [])
            else if \<not> truthy codeParam \<or> \<not> truthy stateParam then
              (createErrorResponse ''invalid_request'' ''Missing code or state parameter'', r, [])
            else
              (case validateState down r now (the stateParam) of
                 (Inl failed, r1) \<Rightarrow>
                   (createErrorResponse ''server_error'' (messageOf failed), r1, [])
               | (Inr storedRedirect, r1) \<Rightarrow>
                   if \<not> truthy storedRedirect then
                     (createErrorResponse ''invalid_state''
                        ''Invalid or expired state parameter'', r1, [])
                   else
                     (case exchangeCodeForToken github (the codeParam) of
                        Inl message \<Rightarrow>
                          (createErrorResponse ''server_error'' message, r1,
                           [ExchangeCode (the codeParam)])
                      | Inr token \<Rightarrow>
                          (case createSession down github r1 now token of
                             (Inl message, r2) \<Rightarrow>
                               (createErrorResponse ''server_error'' message, r2,
                                [ExchangeCode (the codeParam), GetUser token])
                           | (Inr (sessionToken, session), r2) \<Rightarrow>
                               (\<lparr>status = 200,
                                 content =
                                   (if startsWith (the storedRedirect) ''/cli-callback''
                                    then CliSuccessPage sessionToken (username session)
                                    else WebSuccessPage sessionToken (username session)
                                           (the storedRedirect)),
                                 figures = []\<rparr>,
                                r2, [ExchangeCode (the codeParam), GetUser token]))))))"

section \<open>Notions used to state the properties\<close>

text \<open>The token of an \<open>Authorization: Bearer\<close> header, when the request has one.\<close>

definition bearerToken :: "request \<Rightarrow> string option" where
  "bearerToken request =
     (case headers request ''Authorization'' of
        None \<Rightarrow> None
      | Some a \<Rightarrow> if startsWith a ''Bearer '' then Some (drop 7 a) else None)"

definition plainRequest :: "string \<Rightarrow> (string \<rightharpoonup> string) \<Rightarrow> request" where
  "plainRequest m hs = \<lparr>httpMethod = m, headers = hs, query = Map.empty, json = None\<rparr>"

text \<open>A store in which the token \<open>tok\<close> belongs to a live session of user 42.\<close>

definition session42 :: AuthSession where
  "session42 = \<lparr>AuthSession.userId = ''github:42'', username = ''octocat'',
     accessToken = ''gho_x'', createdAt = 0, expiresAt = SESSION_TTL_MS\<rparr>"

definition storeWithSession :: redis where
  "storeWithSession = emptyRedis\<lparr>sessions := [''tok'' \<mapsto> (session42, SESSION_TTL_MS)]\<rparr>"

text \<open>Environments and key states for concrete runs.\<close>

definition poolEnv :: "string option \<Rightarrow> string option \<Rightarrow> string option \<Rightarrow> env" where
  "poolEnv primary fallback1 fallback2 =
     \<lparr>GEMINI_KEY_PRIMARY = primary, GEMINI_KEY_FALLBACK_1 = fallback1,
      GEMINI_KEY_FALLBACK_2 = fallback2, DAILY_BUDGET_CAP = None, SLACK_WEBHOOK_URL = None\<rparr>"

definition keyState :: "string \<Rightarrow> bool \<Rightarrow> int option \<Rightarrow> GeminiKey" where
  "keyState nm healthy used =
     \<lparr>key = ''secret'', name = nm, isHealthy = healthy, lastError = None, lastUsed = used,
      requestCount = 0\<rparr>"

definition mixedPool :: keyStates where
  "mixedPool =
     [''primary'' \<mapsto> keyState ''primary'' True (Some 200),
      ''fallback1'' \<mapsto> keyState ''fallback1'' False (Some 50),
      ''fallback2'' \<mapsto> keyState ''fallback2'' True (Some 100)]"

definition downPool :: keyStates where
  "downPool =
     [''primary'' \<mapsto> keyState ''primary'' False (Some 200),
      ''fallback1'' \<mapsto> keyState ''fallback1'' False (Some 50)]"

text \<open>
  An attempt of the retry loop fails: the loop is within its bound, \<open>selectKey\<close>
  returns a credential, and the backend throws for it.
\<close>

definition attemptFails ::
  "env \<Rightarrow> backend \<Rightarrow> GenerateRequest \<Rightarrow> nat \<Rightarrow> keyStates \<Rightarrow> GeminiKey \<Rightarrow> keyStates \<Rightarrow> string
     \<Rightarrow> bool" where
  "attemptFails e gemini request attempt ks keyInfo ks1 message =
     (attempt < maxRetries \<and> selectKey e ks = (Some keyInfo, ks1)
      \<and> generateWithKey gemini keyInfo request attempt = Inl message)"

text \<open>The two classes of failure after which the loop goes on, and the reason it records.\<close>

definition retryable :: "string \<Rightarrow> bool" where
  "retryable message = (isRateLimited message \<or> isInvalidKey message)"

definition unhealthyReason :: "string \<Rightarrow> string" where
  "unhealthyReason message =
     (if isRateLimited message then ''Rate limited'' else ''Invalid API key'')"

text \<open>Backends and pools for concrete runs.\<close>

definition okResponse :: BackendResponse where
  "okResponse = \<lparr>responseText = [], usageMetadata = None\<rparr>"

definition emptyRequest :: GenerateRequest where
  "emptyRequest =
     \<lparr>prompt = [], systemInstruction = None, temperature = None, maxTokens = None\<rparr>"

definition flakyBackend :: backend where
  "flakyBackend k req n = (if n = 0 then Inl ''429'' else Inr okResponse)"

definition limitedBackend :: backend where
  "limitedBackend k req n = Inl ''429''"

definition deniedBackend :: backend where
  "deniedBackend k req n = Inl ''API key not valid''"

definition brokenBackend :: backend where
  "brokenBackend k req n = Inl ''Boom''"

definition onePool :: env where
  "onePool = poolEnv (Some ''secret'') None None"

definition twoPool :: env where
  "twoPool = poolEnv (Some ''secret'') (Some ''secret'') None"

definition twoFresh :: keyStates where
  "twoFresh =
     [''primary'' \<mapsto> keyState ''primary'' True None,
      ''fallback1'' \<mapsto> keyState ''fallback1'' True None]"

text \<open>The states are well named and hold every configured credential under its name.\<close>

definition good :: "GeminiKey list \<times> keyStates \<Rightarrow> bool" where
  "good p = (case p of (cfg, ks) \<Rightarrow> wellNamed ks \<and> (\<forall>k \<in> set cfg. ks (name k) = Some k))"

text \<open>
  The body passes the validation of the generate handler: the method is POST, the body
  parses, and the prompt is a non-empty string of at most 32000 code units.
\<close>

definition accepted :: "request \<Rightarrow> GenerateBody \<Rightarrow> utf16 \<Rightarrow> bool" where
  "accepted request body promptText =
     (httpMethod request = ''POST'' \<and> json request = Some body
      \<and> GenerateBody.prompt body = Some promptText \<and> promptText \<noteq> []
      \<and> length promptText \<le> 32000)"

text \<open>The limiter the handlers choose for a request, and the request handed to the retry loop.\<close>

definition limiterOf :: "request \<Rightarrow> Ratelimit" where
  "limiterOf request =
     (if snd (getUserIdentifier request) = authenticated then authRatelimit else anonRatelimit)"

definition requestOf :: "GenerateBody \<Rightarrow> utf16 \<Rightarrow> GenerateRequest" where
  "requestOf body promptText =
     \<lparr>prompt = promptText, systemInstruction = None,
      temperature = GenerateBody.temperature body, maxTokens = GenerateBody.maxTokens body\<rparr>"

text \<open>A concrete caller, backend and replies for the runs below.\<close>

definition hiBody :: GenerateBody where
  "hiBody = \<lparr>GenerateBody.prompt = Some [104, 105], GenerateBody.temperature = None,
     GenerateBody.maxTokens = None\<rparr>"

definition promptRequest :: request where
  "promptRequest =
     \<lparr>httpMethod = ''POST'', headers = [''X-Real-IP'' \<mapsto> ''1.2.3.4''], query = Map.empty,
      json = Some hiBody\<rparr>"

definition okText :: utf16 where
  "okText = [72, 101, 108, 108, 111, 33]"

definition meteredBackend :: backend where
  "meteredBackend k req n =
     Inr \<lparr>responseText = okText,
          usageMetadata = Some \<lparr>promptTokenCount = Some 400, candidatesTokenCount = Some 600,
                                 totalTokenCount = Some 1000\<rparr>\<rparr>"

definition meteredResult :: GenerateResult where
  "meteredResult =
     \<lparr>resultText = okText, model = ''gemini-1.5-flash'',
      usage = \<lparr>promptTokens = 400, completionTokens = 600, totalTokens = 1000\<rparr>,
      keyUsed = ''primary''\<rparr>"

definition usedState :: "nat \<Rightarrow> int \<Rightarrow> GeminiKey" where
  "usedState n t =
     \<lparr>key = ''secret'', name = ''primary'', isHealthy = True, lastError = None,
      lastUsed = Some t, requestCount = n\<rparr>"

definition okReply :: "int \<Rightarrow> failure + Response" where
  "okReply left =
     Inr (jsonResponse (GenerateResponse okText ''gemini-1.5-flash'' left 5 86400000) 200
       [(''X-RateLimit-Limit'', 5), (''X-RateLimit-Remaining'', left),
        (''X-RateLimit-Reset'', 86400000)])"

definition limitedReply :: "int \<Rightarrow> failure + Response" where
  "limitedReply retry =
     Inr (jsonResponse (ErrorResponse ''Rate limit exceeded'' ''RATE_LIMIT_EXCEEDED'' (Some retry))
       429
       [(''X-RateLimit-Limit'', 5), (''X-RateLimit-Remaining'', 0),
        (''X-RateLimit-Reset'', 86400000), (''Retry-After'', retry)])"

text \<open>Successive invocations of the generate handler on the state the previous one left.\<close>

fun generateCalls ::
  "env \<Rightarrow> callsite set \<Rightarrow> backend \<Rightarrow> redis \<Rightarrow> keyStates \<Rightarrow> request \<Rightarrow> int list
     \<Rightarrow> (failure + Response) list" where
  "generateCalls e down gemini r ks request [] = []"
| "generateCalls e down gemini r ks request (now # nows) =
     (let out = generate_handler e down gemini now r ks request
      in response out # generateCalls e down gemini (store out) (keys out) request nows)"

text \<open>
  The state between the calls of the run: the caller has used \<open>k\<close> units of the
  window, the ledger of the day is empty, and the pool holds at most the primary key.
\<close>

definition quotaState :: "int \<Rightarrow> redis \<Rightarrow> keyStates \<Rightarrow> bool" where
  "quotaState k r ks =
     (orZeroInt (ratelimit r (''rocket:ratelimit:anon'', ''ip:vgq5c0'', 0)) = k
      \<and> orZeroInt (counters r (0, ''cost'')) = 0
      \<and> (ks = Map.empty \<or> (\<exists>n t. ks = [''primary'' \<mapsto> usedState n t])))"

text \<open>A store whose ledger of day 0 holds 20 dollars, above the default cap of 10.\<close>

definition spentStore :: redis where
  "spentStore = emptyRedis\<lparr>counters := [(0, ''cost'') \<mapsto> 2000000]\<rparr>"

definition budgetReply :: "failure + Response" where
  "budgetReply =
     Inr (jsonResponse
       (ErrorResponse ''Service temporarily unavailable due to high demand''
          ''BUDGET_EXCEEDED'' None) 503 [])"

text \<open>Successive invocations of the limits handler on the store the previous one left.\<close>

fun limitsCalls ::
  "callsite set \<Rightarrow> redis \<Rightarrow> request \<Rightarrow> int list \<Rightarrow> (failure + Response) list \<times> redis" where
  "limitsCalls down r request [] = ([], r)"
| "limitsCalls down r request (now # nows) =
     (case limits_handler down now r request of (resp, r1) \<Rightarrow>
        case limitsCalls down r1 request nows of (resps, r2) \<Rightarrow> (resp # resps, r2))"

text \<open>A store in which the header-less anonymous caller has used two units of day 0.\<close>

definition usedTwice :: redis where
  "usedTwice =
     emptyRedis\<lparr>ratelimit := [(''rocket:ratelimit:anon'', ''ip:4pl4mu'', 0) \<mapsto> 2]\<rparr>"

definition limitsReply :: "int \<Rightarrow> failure + Response" where
  "limitsReply left =
     Inr (jsonResponse (LimitsResponse anonymous 5 left 86400000) 200
       [(''X-RateLimit-Limit'', 5), (''X-RateLimit-Remaining'', left),
        (''X-RateLimit-Reset'', 86400000)])"

text \<open>A login from the command line, its callback, and a provider that accepts it.\<close>

definition loginRequest :: request where
  "loginRequest =
     \<lparr>httpMethod = ''GET'', headers = Map.empty, query = [''redirect'' \<mapsto> ''/cli-callback''],
      json = None\<rparr>"

definition callbackRequest :: request where
  "callbackRequest =
     \<lparr>httpMethod = ''GET'', headers = Map.empty,
      query = [''code'' \<mapsto> ''c0de'', ''state'' \<mapsto> ''5ca1ab1e''], json = None\<rparr>"

definition octoProvider :: provider where
  "octoProvider =
     \<lparr>exchangeCodeForToken = (\<lambda>c. Inr ''gho_x''),
      getGitHubUser = (\<lambda>t. Inr \<lparr>idText = ''42'', login = ''octocat''\<rparr>),
      generateState = ''5e55''\<rparr>"

definition pendingLogin :: redis where
  "pendingLogin = snd (github_handler emptyRedis 0 ''5ca1ab1e'' loginRequest)"

text \<open>
  The day's cumulative cost as \<open>getTodayMetrics\<close> reads it from the ledger, and the two
  alerts of \<open>checkBudgetAndAlert\<close> with the figures of a store.
\<close>

definition spend :: "redis \<Rightarrow> int \<Rightarrow> rat" where
  "spend r now = of_int (orZeroInt (counters r (getTodayKey now, ''cost''))) / 100000"









section \<open>Properties\<close>

subsection \<open>Identity resolution\<close>

lemma hashString_unknown: "hashString ''unknown'' = ''4pl4mu''"
  by (simp add: hashString_def toString36.simps digits36_def)

lemma hashString_tok: "hashString ''tok'' = ''2gr4''"
  by (simp add: hashString_def toString36.simps digits36_def)

lemma getUserIdentifier_bearer:
  "bearerToken request = Some tok \<Longrightarrow>
   getUserIdentifier request = (''github:'' @ hashString tok, authenticated)"
  by (auto simp: bearerToken_def getUserIdentifier_def split: option.splits if_splits)

lemma getUserIdentifier_no_bearer:
  "bearerToken request = None \<Longrightarrow>
   getUserIdentifier request =
     (if truthy (headers request ''X-GitHub-User'')
      then (''github:'' @ the (headers request ''X-GitHub-User''), authenticated)
      else (''ip:'' @ hashString (clientIp request), anonymous))"
  by (auto simp: bearerToken_def getUserIdentifier_def split: option.splits if_splits)

text \<open>
  C3, as the code has it: a Bearer header yields the identity \<open>github:\<close> followed by
  the hash of the token, tier authenticated, and no session is looked up; otherwise a
  non-empty \<open>X-GitHub-User\<close> header yields \<open>github:\<close> followed by its value, tier
  authenticated; otherwise the client address (the first entry of \<open>X-Forwarded-For\<close>,
  else \<open>X-Real-IP\<close>, else the text \<open>unknown\<close>) is hashed and yields \<open>ip:\<close> followed by
  the hash, tier anonymous.
\<close>

theorem identity_precedence:
  "(bearerToken r1 = Some tok \<longrightarrow>
      getUserIdentifier r1 = (''github:'' @ hashString tok, authenticated))
   \<and> (bearerToken r2 = None \<and> headers r2 ''X-GitHub-User'' = Some u \<and> u \<noteq> [] \<longrightarrow>
      getUserIdentifier r2 = (''github:'' @ u, authenticated))
   \<and> (bearerToken r3 = None \<and> \<not> truthy (headers r3 ''X-GitHub-User'') \<longrightarrow>
      getUserIdentifier r3 = (''ip:'' @ hashString (clientIp r3), anonymous))"
  by (simp add: getUserIdentifier_bearer getUserIdentifier_no_bearer)

text \<open>The three cases of C3 on three requests.\<close>

theorem identity_precedence_witness:
  "getUserIdentifier (plainRequest ''POST'' [''Authorization'' \<mapsto> ''Bearer tok''])
     = (''github:2gr4'', authenticated)
   \<and> getUserIdentifier
         (plainRequest ''POST'' [''X-GitHub-User'' \<mapsto> ''octocat'', ''X-Real-IP'' \<mapsto> ''10.0.0.1''])
       = (''github:octocat'', authenticated)
   \<and> getUserIdentifier (plainRequest ''POST'' [''X-Forwarded-For'' \<mapsto> '' tok, 10.0.0.2''])
       = (''ip:2gr4'', anonymous)"
  using identity_precedence [of
      "plainRequest ''POST'' [''Authorization'' \<mapsto> ''Bearer tok'']" "''tok''"
      "plainRequest ''POST'' [''X-GitHub-User'' \<mapsto> ''octocat'', ''X-Real-IP'' \<mapsto> ''10.0.0.1'']"
      "''octocat''"
      "plainRequest ''POST'' [''X-Forwarded-For'' \<mapsto> '' tok, 10.0.0.2'']"]
  by (simp add: plainRequest_def bearerToken_def startsWith_def clientIp_def trim_def
      splitCommaFirst_def isWhiteSpace_def hashString_tok)

text \<open>
  C3 as stated fails: the token \<open>tok\<close> resolves to the session of user \<open>github:42\<close>,
  and the request that carries it is identified as \<open>github:2gr4\<close>.
\<close>

theorem bearer_identity_counterexample:
  "getSession storeWithSession 1000 ''tok'' = Some (Some session42, storeWithSession)
   \<and> bearerToken (plainRequest ''POST'' [''Authorization'' \<mapsto> ''Bearer tok'']) = Some ''tok''
   \<and> getUserIdentifier (plainRequest ''POST'' [''Authorization'' \<mapsto> ''Bearer tok''])
       = (''github:2gr4'', authenticated)
   \<and> AuthSession.userId session42 = ''github:42''"
  by (subst getSession.simps)
     (simp add: storeWithSession_def emptyRedis_def getLive_def session42_def SESSION_TTL_MS_def
        plainRequest_def bearerToken_def startsWith_def getUserIdentifier_def hashString_tok)

text \<open>
  C10: a request with no Bearer header, no \<open>X-GitHub-User\<close>, no \<open>X-Forwarded-For\<close>
  and no \<open>X-Real-IP\<close> is anonymous with the identity \<open>ip:\<close> followed by the hash of
  the text \<open>unknown\<close>, which is \<open>4pl4mu\<close>; any two such requests have the same
  identity, hence the same quota counter.
\<close>

theorem anonymous_unknown_identity:
  assumes "bearerToken r1 = None" and "headers r1 ''X-GitHub-User'' = None"
    and "headers r1 ''X-Forwarded-For'' = None" and "headers r1 ''X-Real-IP'' = None"
    and "bearerToken r2 = None" and "headers r2 ''X-GitHub-User'' = None"
    and "headers r2 ''X-Forwarded-For'' = None" and "headers r2 ''X-Real-IP'' = None"
  shows "getUserIdentifier r1 = (''ip:'' @ hashString ''unknown'', anonymous)
         \<and> hashString ''unknown'' = ''4pl4mu''
         \<and> getUserIdentifier r2 = getUserIdentifier r1"
  using assms by (simp add: getUserIdentifier_no_bearer clientIp_def hashString_unknown)

text \<open>C10 on a request without headers and one with a Basic authorization.\<close>

theorem anonymous_unknown_identity_witness:
  "getUserIdentifier (plainRequest ''POST'' Map.empty) = (''ip:4pl4mu'', anonymous)
   \<and> getUserIdentifier (plainRequest ''GET'' [''Authorization'' \<mapsto> ''Basic abc''])
       = getUserIdentifier (plainRequest ''POST'' Map.empty)"
  using anonymous_unknown_identity [of "plainRequest ''POST'' Map.empty"
      "plainRequest ''GET'' [''Authorization'' \<mapsto> ''Basic abc'']"]
  by (simp add: plainRequest_def bearerToken_def startsWith_def)

subsection \<open>Credential selection\<close>

lemma compareLastUsed_less: "compareLastUsed a b < 0 \<Longrightarrow> notLater a b"
  by (simp add: compareLastUsed_def notLater_def split: option.splits)

lemma compareLastUsed_not_less: "\<not> compareLastUsed a b < 0 \<Longrightarrow> notLater b a"
  by (simp add: compareLastUsed_def notLater_def split: option.splits)

lemma notLater_total: "\<not> notLater a b \<Longrightarrow> notLater b a"
  by (simp add: notLater_def split: option.splits)

lemma notLater_trans: "notLater a b \<Longrightarrow> notLater b c \<Longrightarrow> notLater a c"
  by (auto simp: notLater_def split: option.splits)

lemma notLater_refl: "notLater a a"
  by (simp add: notLater_def split: option.splits)

lemma set_binaryInsert: "set (binaryInsert cmp run pivot) = insert pivot (set run)"
proof -
  have "set (take n run) \<union> set (drop n run) = set run" for n
    by (metis append_take_drop_id set_append)
  then show ?thesis by (auto simp: binaryInsert_def Let_def)
qed

lemma set_foldl_binaryInsert: "set (foldl (binaryInsert cmp) run rest) = set run \<union> set rest"
  by (induction rest arbitrary: run) (auto simp: set_binaryInsert)

lemma countAndMakeRun_shape:
  "\<exists>n. (fst (countAndMakeRun cmp work) = take n work
          \<or> fst (countAndMakeRun cmp work) = rev (take n work))
       \<and> snd (countAndMakeRun cmp work) = drop n work"
proof (cases work)
  case Nil
  then show ?thesis by (simp add: countAndMakeRun_def)
next
  case (Cons elementHigh tail)
  show ?thesis
  proof (cases tail)
    case Nil
    with Cons have "fst (countAndMakeRun cmp work) = take 1 work"
      and "snd (countAndMakeRun cmp work) = drop 1 work"
      by (simp_all add: countAndMakeRun_def)
    then show ?thesis by blast
  next
    case (Cons elementLow rest)
    let ?n = "2 + runLength cmp (cmp elementLow elementHigh < 0) elementLow rest"
    from Cons \<open>work = elementHigh # tail\<close>
    have "fst (countAndMakeRun cmp work)
            = (if cmp elementLow elementHigh < 0 then rev (take ?n work) else take ?n work)"
      and "snd (countAndMakeRun cmp work) = drop ?n work"
      by (simp_all add: countAndMakeRun_def Let_def)
    then show ?thesis by (metis (full_types))
  qed
qed

lemma countAndMakeRun_parts:
  assumes "countAndMakeRun cmp work = (run, rest)"
  shows "set run \<union> set rest = set work"
proof -
  from countAndMakeRun_shape [of cmp work] assms obtain n where
    "run = take n work \<or> run = rev (take n work)" and "rest = drop n work" by auto
  moreover have "set (take n work) \<union> set (drop n work) = set work"
    by (metis append_take_drop_id set_append)
  ultimately show ?thesis by auto
qed

lemma set_arraySort: "set (arraySort cmp xs) = set xs"
proof -
  obtain run rest where c: "countAndMakeRun cmp xs = (run, rest)" by (cases "countAndMakeRun cmp xs")
  then show ?thesis
    using countAndMakeRun_parts [OF c] by (simp add: arraySort_def set_foldl_binaryInsert)
qed


lemma run_ascending:
  assumes ge: "\<And>x y. \<not> cmp x y < 0 \<Longrightarrow> le y x"
    and tr: "\<And>a b c. le a b \<Longrightarrow> le b c \<Longrightarrow> le a c"
  shows "sorted_wrt le (previous # take (runLength cmp False previous rest) rest)"
proof (induction rest arbitrary: previous)
  case Nil
  show ?case by simp
next
  case (Cons current rest)
  show ?case
  proof (cases "cmp current previous < 0")
    case True
    then show ?thesis by simp
  next
    case False
    then have first: "le previous current" by (rule ge)
    from Cons [of current]
    have later: "\<forall>y \<in> set (take (runLength cmp False current rest) rest). le current y"
      and sorted: "sorted_wrt le (take (runLength cmp False current rest) rest)" by simp_all
    from first later have "\<forall>y \<in> set (take (runLength cmp False current rest) rest). le previous y"
      using tr by blast
    with False first later sorted show ?thesis by simp
  qed
qed

lemma run_descending:
  assumes lt: "\<And>x y. cmp x y < 0 \<Longrightarrow> le x y"
    and tr: "\<And>a b c. le a b \<Longrightarrow> le b c \<Longrightarrow> le a c"
  shows "sorted_wrt (\<lambda>a b. le b a) (previous # take (runLength cmp True previous rest) rest)"
proof (induction rest arbitrary: previous)
  case Nil
  show ?case by simp
next
  case (Cons current rest)
  show ?case
  proof (cases "cmp current previous < 0")
    case False
    then show ?thesis by simp
  next
    case True
    then have first: "le current previous" by (rule lt)
    from Cons [of current]
    have later: "\<forall>y \<in> set (take (runLength cmp True current rest) rest). le y current"
      and sorted: "sorted_wrt (\<lambda>a b. le b a) (take (runLength cmp True current rest) rest)"
      by simp_all
    from first later have "\<forall>y \<in> set (take (runLength cmp True current rest) rest). le y previous"
      using tr by blast
    with True first later sorted show ?thesis by simp
  qed
qed

lemma countAndMakeRun_sorted:
  assumes lt: "\<And>x y. cmp x y < 0 \<Longrightarrow> le x y"
    and ge: "\<And>x y. \<not> cmp x y < 0 \<Longrightarrow> le y x"
    and tr: "\<And>a b c. le a b \<Longrightarrow> le b c \<Longrightarrow> le a c"
  shows "sorted_wrt le (fst (countAndMakeRun cmp work))"
proof (cases work)
  case Nil
  then show ?thesis by (simp add: countAndMakeRun_def)
next
  case (Cons elementHigh tail)
  show ?thesis
  proof (cases tail)
    case Nil
    with Cons show ?thesis by (simp add: countAndMakeRun_def)
  next
    case (Cons elementLow rest)
    note work = \<open>work = elementHigh # tail\<close> Cons
    show ?thesis
    proof (cases "cmp elementLow elementHigh < 0")
      case True
      from run_descending [of cmp le elementHigh "elementLow # rest"] lt tr True
      have "sorted_wrt (\<lambda>a b. le b a)
              (elementHigh # elementLow # take (runLength cmp True elementLow rest) rest)"
        by simp
      then have "sorted_wrt le
              (rev (elementHigh # elementLow # take (runLength cmp True elementLow rest) rest))"
        unfolding sorted_wrt_rev .
      with work True show ?thesis by (simp add: countAndMakeRun_def Let_def)
    next
      case False
      from run_ascending [of cmp le elementHigh "elementLow # rest"] ge tr False
      have "sorted_wrt le
              (elementHigh # elementLow # take (runLength cmp False elementLow rest) rest)"
        by simp
      with work False show ?thesis by (simp add: countAndMakeRun_def Let_def)
    qed
  qed
qed

lemma insertionPoint_splits:
  "(\<And>x y. cmp x y < 0 \<Longrightarrow> le x y) \<Longrightarrow> (\<And>x y. \<not> cmp x y < 0 \<Longrightarrow> le y x)
   \<Longrightarrow> (\<And>a b c. le a b \<Longrightarrow> le b c \<Longrightarrow> le a c) \<Longrightarrow> sorted_wrt le work
   \<Longrightarrow> left \<le> right \<Longrightarrow> right \<le> length work
   \<Longrightarrow> \<forall>i < left. le (work ! i) pivot
   \<Longrightarrow> \<forall>i. right \<le> i \<and> i < length work \<longrightarrow> le pivot (work ! i)
   \<Longrightarrow> insertionPoint cmp pivot work left right \<le> length work
       \<and> (\<forall>i < insertionPoint cmp pivot work left right. le (work ! i) pivot)
       \<and> (\<forall>i. insertionPoint cmp pivot work left right \<le> i \<and> i < length work
              \<longrightarrow> le pivot (work ! i))"
proof (induction cmp pivot work left right rule: insertionPoint.induct)
  case (1 cmp pivot work left right)
  note lt = "1.prems"(1) and ge = "1.prems"(2) and tr = "1.prems"(3)
    and sorted = "1.prems"(4) and bounds = "1.prems"(5,6)
    and below0 = "1.prems"(7) and above0 = "1.prems"(8)
  note sorted_nth = sorted_wrt_nth_less [OF sorted]
  show ?case
  proof (cases "left < right")
    case False
    have stop: "insertionPoint cmp pivot work left right = left"
      using False by (subst insertionPoint.simps) simp
    from False bounds have "left = right" by simp
    with bounds below0 above0 show ?thesis unfolding stop by simp
  next
    case True
    define mid where "mid = left + (right - left) div 2"
    have m: "left \<le> mid" "mid < right" using True by (simp_all add: mid_def)
    then have ml: "mid < length work" using bounds by simp
    show ?thesis
    proof (cases "cmp pivot (work ! mid) < 0")
      case before: True
      then have pm: "le pivot (work ! mid)" by (rule lt)
      have above: "\<forall>i. mid \<le> i \<and> i < length work \<longrightarrow> le pivot (work ! i)"
      proof (intro allI impI)
        fix i assume i: "mid \<le> i \<and> i < length work"
        show "le pivot (work ! i)"
        proof (cases "i = mid")
          case True
          with pm show ?thesis by simp
        next
          case False
          with i have "mid < i" by simp
          with i have "le (work ! mid) (work ! i)" by (simp add: sorted_nth)
          with pm show ?thesis by (rule tr)
        qed
      qed
      have step: "insertionPoint cmp pivot work left right = insertionPoint cmp pivot work left mid"
        using True before by (subst insertionPoint.simps) (simp add: mid_def Let_def)
      from ml have "mid \<le> length work" by simp
      from "1.IH"(1) [OF True mid_def before lt ge tr sorted m(1) this below0 above]
      show ?thesis unfolding step by simp
    next
      case after: False
      then have mp: "le (work ! mid) pivot" by (rule ge)
      have below: "\<forall>i < mid + 1. le (work ! i) pivot"
      proof (intro allI impI)
        fix i assume i: "i < mid + 1"
        show "le (work ! i) pivot"
        proof (cases "i = mid")
          case True
          with mp show ?thesis by simp
        next
          case False
          with i have "i < mid" by simp
          with ml have "le (work ! i) (work ! mid)" by (simp add: sorted_nth)
          then show ?thesis using mp by (rule tr)
        qed
      qed
      have step: "insertionPoint cmp pivot work left right
                    = insertionPoint cmp pivot work (mid + 1) right"
        using True after by (subst insertionPoint.simps) (simp add: mid_def Let_def)
      from m have "mid + 1 \<le> right" by simp
      from "1.IH"(2) [OF True mid_def after lt ge tr sorted this bounds(2) below above0]
      show ?thesis unfolding step by simp
    qed
  qed
qed

lemma binaryInsert_sorted:
  assumes lt: "\<And>x y. cmp x y < 0 \<Longrightarrow> le x y"
    and ge: "\<And>x y. \<not> cmp x y < 0 \<Longrightarrow> le y x"
    and tr: "\<And>a b c. le a b \<Longrightarrow> le b c \<Longrightarrow> le a c"
    and sorted: "sorted_wrt le run"
  shows "sorted_wrt le (binaryInsert cmp run pivot)"
proof -
  define p where "p = insertionPoint cmp pivot run 0 (length run)"
  from insertionPoint_splits [of cmp le run 0 "length run" pivot] lt ge tr sorted
  have pl: "p \<le> length run" and below: "\<forall>i < p. le (run ! i) pivot"
    and above: "\<forall>i. p \<le> i \<and> i < length run \<longrightarrow> le pivot (run ! i)"
    by (simp_all add: p_def)
  from sorted have split: "sorted_wrt le (take p run)" "sorted_wrt le (drop p run)"
    by (simp_all add: sorted_wrt_take sorted_wrt_drop)
  have b: "\<forall>x \<in> set (take p run). le x pivot"
  proof
    fix x assume "x \<in> set (take p run)"
    then obtain i where "i < length (take p run)" and "x = take p run ! i"
      by (auto simp: in_set_conv_nth)
    with below show "le x pivot" by simp
  qed
  have a: "\<forall>y \<in> set (drop p run). le pivot y"
  proof
    fix y assume "y \<in> set (drop p run)"
    then obtain i where "i < length (drop p run)" and "y = drop p run ! i"
      by (auto simp: in_set_conv_nth)
    with above pl show "le pivot y" by simp
  qed
  from b a have "\<forall>x \<in> set (take p run). \<forall>y \<in> set (drop p run). le x y"
    using tr by blast
  with split b a have "sorted_wrt le (take p run @ pivot # drop p run)"
    by (simp add: sorted_wrt_append)
  then show ?thesis by (simp add: binaryInsert_def p_def Let_def)
qed

lemma foldl_binaryInsert_sorted:
  assumes lt: "\<And>x y. cmp x y < 0 \<Longrightarrow> le x y"
    and ge: "\<And>x y. \<not> cmp x y < 0 \<Longrightarrow> le y x"
    and tr: "\<And>a b c. le a b \<Longrightarrow> le b c \<Longrightarrow> le a c"
  shows "sorted_wrt le run \<Longrightarrow> sorted_wrt le (foldl (binaryInsert cmp) run rest)"
proof (induction rest arbitrary: run)
  case Nil
  then show ?case by simp
next
  case (Cons pivot rest)
  from binaryInsert_sorted [of cmp le run pivot, OF lt ge tr Cons.prems]
  have "sorted_wrt le (binaryInsert cmp run pivot)" .
  from Cons.IH [OF this] show ?case by simp
qed

lemma arraySort_sorted:
  assumes lt: "\<And>x y. cmp x y < 0 \<Longrightarrow> le x y"
    and ge: "\<And>x y. \<not> cmp x y < 0 \<Longrightarrow> le y x"
    and tr: "\<And>a b c. le a b \<Longrightarrow> le b c \<Longrightarrow> le a c"
  shows "sorted_wrt le (arraySort cmp xs)"
proof -
  obtain run rest where c: "countAndMakeRun cmp xs = (run, rest)" by (cases "countAndMakeRun cmp xs")
  from countAndMakeRun_sorted [of cmp le xs, OF lt ge tr] c have "sorted_wrt le run" by simp
  from foldl_binaryInsert_sorted [of cmp le run rest, OF lt ge tr this] c
  show ?thesis by (simp add: arraySort_def)
qed

lemma arraySort_Nil: "arraySort cmp xs = [] \<longleftrightarrow> xs = []"
  using set_arraySort [of cmp xs] by (metis set_empty)

lemma headOldest_arraySort: "headOldest (arraySort compareLastUsed xs)"
proof -
  have "sorted_wrt notLater (arraySort compareLastUsed xs)"
    by (rule arraySort_sorted) (blast intro: compareLastUsed_less compareLastUsed_not_less
      notLater_trans)+
  then show ?thesis by (cases "arraySort compareLastUsed xs") (simp_all add: headOldest_def)
qed

lemma arraySort_head:
  assumes "arraySort compareLastUsed xs = h # t"
  shows "h \<in> set xs \<and> (\<forall>y \<in> set xs. notLater h y)"
proof -
  have s: "set xs = insert h (set t)"
    using set_arraySort [of compareLastUsed xs] assms by simp
  have "\<forall>y \<in> set t. notLater h y"
    using headOldest_arraySort [of xs] assms by (simp add: headOldest_def)
  then show ?thesis unfolding s by (simp add: notLater_refl)
qed

lemma selectKey_none:
  "fst (getConfiguredKeys e ks) = [] \<Longrightarrow> fst (selectKey e ks) = None"
  by (cases "getConfiguredKeys e ks") (simp add: selectKey_def)

lemma selectKey_healthy:
  assumes "getConfiguredKeys e ks = (cfg, ks1)" and "\<exists>k \<in> set cfg. isHealthy k"
  shows "\<exists>s. selectKey e ks = (Some s, ks1) \<and> s \<in> set cfg \<and> isHealthy s
             \<and> (\<forall>k \<in> set cfg. isHealthy k \<longrightarrow> notLater s k)"
proof -
  let ?h = "filter isHealthy cfg"
  from assms(2) have ne: "?h \<noteq> []" by (auto simp: filter_empty_conv)
  then have "arraySort compareLastUsed ?h \<noteq> []" by (simp add: arraySort_Nil)
  then obtain s t where st: "arraySort compareLastUsed ?h = s # t"
    by (cases "arraySort compareLastUsed ?h") auto
  from arraySort_head [OF st] have "s \<in> set ?h" and "\<forall>y \<in> set ?h. notLater s y" by auto
  moreover have "selectKey e ks = (Some s, ks1)"
    using assms(1) ne st by (auto simp: selectKey_def)
  ultimately show ?thesis by auto
qed

lemma selectKey_fallback:
  assumes "getConfiguredKeys e ks = (cfg, ks1)" and "cfg \<noteq> []"
    and "\<forall>k \<in> set cfg. \<not> isHealthy k"
  shows "\<exists>s \<in> set cfg. (\<forall>k \<in> set cfg. notLater s k)
           \<and> selectKey e ks
               = (Some (s\<lparr>isHealthy := True\<rparr>), ks1(name s \<mapsto> s\<lparr>isHealthy := True\<rparr>))"
proof -
  from assms(3) have h: "filter isHealthy cfg = []" by (auto simp: filter_empty_conv)
  from assms(2) have "arraySort compareLastUsed cfg \<noteq> []" by (simp add: arraySort_Nil)
  then obtain s t where st: "arraySort compareLastUsed cfg = s # t"
    by (cases "arraySort compareLastUsed cfg") auto
  from arraySort_head [OF st] have "s \<in> set cfg" and "\<forall>y \<in> set cfg. notLater s y" by auto
  moreover have "selectKey e ks
      = (Some (s\<lparr>isHealthy := True\<rparr>), ks1(name s \<mapsto> s\<lparr>isHealthy := True\<rparr>))"
    using assms(1,2) h st by (simp add: selectKey_def Let_def)
  ultimately show ?thesis by auto
qed

lemmas pool_defs = poolEnv_def keyState_def getConfiguredKeys_def pushConfigured_def
  getOrCreateKeyState_def

lemmas sort_defs = arraySort_def countAndMakeRun_def binaryInsert_def compareLastUsed_def
  keyState_def Let_def

lemma configured_mixedPool:
  "getConfiguredKeys (poolEnv (Some ''a'') (Some ''b'') (Some ''c'')) mixedPool
   = ([keyState ''primary'' True (Some 200), keyState ''fallback1'' False (Some 50),
       keyState ''fallback2'' True (Some 100)], mixedPool)"
  by (simp add: pool_defs mixedPool_def)

lemma configured_downPool:
  "getConfiguredKeys (poolEnv (Some ''a'') (Some ''b'') None) downPool
   = ([keyState ''primary'' False (Some 200), keyState ''fallback1'' False (Some 50)], downPool)"
  by (simp add: pool_defs downPool_def)

lemma select_mixedPool:
  "selectKey (poolEnv (Some ''a'') (Some ''b'') (Some ''c'')) mixedPool
   = (Some (keyState ''fallback2'' True (Some 100)), mixedPool)"
  by (simp add: selectKey_def configured_mixedPool sort_defs)

lemma select_downPool:
  "selectKey (poolEnv (Some ''a'') (Some ''b'') None) downPool
   = (Some (keyState ''fallback1'' True (Some 50)),
      downPool(''fallback1'' \<mapsto> keyState ''fallback1'' True (Some 50)))"
  by (simp add: selectKey_def configured_downPool sort_defs)

lemma select_unconfigured: "fst (selectKey (poolEnv None None None) Map.empty) = None"
  by (simp add: selectKey_def pool_defs)

text \<open>
  C4: with no credential configured \<open>selectKey\<close> returns none; when a configured
  credential is healthy it returns a configured, healthy credential that no healthy
  one precedes in last use (never-used ones first) and leaves the states as they are;
  when credentials are configured and none is healthy it returns one that no
  credential of the pool precedes in last use, with \<open>isHealthy\<close> set back to true in
  the returned object and in the stored state.
\<close>

theorem selectKey_policy:
  "(fst (getConfiguredKeys e0 ks0) = [] \<longrightarrow> fst (selectKey e0 ks0) = None)
   \<and> (getConfiguredKeys e1 ks1 = (cfg1, st1) \<and> (\<exists>k \<in> set cfg1. isHealthy k) \<longrightarrow>
        (\<exists>s. selectKey e1 ks1 = (Some s, st1) \<and> s \<in> set cfg1 \<and> isHealthy s
             \<and> (\<forall>k \<in> set cfg1. isHealthy k \<longrightarrow> notLater s k)))
   \<and> (getConfiguredKeys e2 ks2 = (cfg2, st2) \<and> cfg2 \<noteq> []
        \<and> (\<forall>k \<in> set cfg2. \<not> isHealthy k) \<longrightarrow>
        (\<exists>s \<in> set cfg2. (\<forall>k \<in> set cfg2. notLater s k)
           \<and> selectKey e2 ks2
               = (Some (s\<lparr>isHealthy := True\<rparr>), st2(name s \<mapsto> s\<lparr>isHealthy := True\<rparr>))))"
  using selectKey_none [of e0 ks0] selectKey_healthy [of e1 ks1 cfg1 st1]
    selectKey_fallback [of e2 ks2 cfg2 st2]
  by blast

text \<open>
  C4 on an empty configuration, on a pool of three with the first fallback unhealthy,
  and on a pool of two unhealthy credentials.
\<close>

theorem selectKey_policy_witness:
  "fst (selectKey (poolEnv None None None) Map.empty) = None
   \<and> selectKey (poolEnv (Some ''a'') (Some ''b'') (Some ''c'')) mixedPool
       = (Some (keyState ''fallback2'' True (Some 100)), mixedPool)
   \<and> selectKey (poolEnv (Some ''a'') (Some ''b'') None) downPool
       = (Some (keyState ''fallback1'' True (Some 50)),
          downPool(''fallback1'' \<mapsto> keyState ''fallback1'' True (Some 50)))"
  using selectKey_policy [of "poolEnv None None None" Map.empty
      "poolEnv (Some ''a'') (Some ''b'') (Some ''c'')" mixedPool
      "[keyState ''primary'' True (Some 200), keyState ''fallback1'' False (Some 50),
        keyState ''fallback2'' True (Some 100)]" mixedPool
      "poolEnv (Some ''a'') (Some ''b'') None" downPool
      "[keyState ''primary'' False (Some 200), keyState ''fallback1'' False (Some 50)]" downPool]
    select_unconfigured select_mixedPool select_downPool
  by blast

subsection \<open>The retry loop\<close>

lemma called_bound:
  "length (called (rotationLoop e gemini request now attempt lastErr ks calls))
     \<le> length calls + (maxRetries - attempt)"
proof (induction e gemini request now attempt lastErr ks calls rule: rotationLoop.induct)
  case (1 e gemini request now attempt lastErr ks calls)
  show ?case
  proof (cases "attempt < maxRetries")
    case False
    then show ?thesis by (subst rotationLoop.simps) simp
  next
    case True
    obtain sel ks1 where sk: "selectKey e ks = (sel, ks1)" by (cases "selectKey e ks")
    show ?thesis
    proof (cases sel)
      case None
      with True sk show ?thesis by (subst rotationLoop.simps) simp
    next
      case (Some keyInfo)
      show ?thesis
      proof (cases "generateWithKey gemini keyInfo request attempt")
        case (Inr result)
        with True sk Some show ?thesis by (subst rotationLoop.simps) simp
      next
        case (Inl message)
        consider (rl) "isRateLimited message"
          | (inv) "\<not> isRateLimited message" "isInvalidKey message"
          | (other) "\<not> isRateLimited message" "\<not> isInvalidKey message" by blast
        then show ?thesis
        proof cases
          case rl
          from "1.IH"(1) [OF True sk [symmetric] Some Inl rl] True sk Some Inl rl
          show ?thesis by (subst rotationLoop.simps) simp
        next
          case inv
          from "1.IH"(2) [OF True sk [symmetric] Some Inl inv] True sk Some Inl inv
          show ?thesis by (subst rotationLoop.simps) simp
        next
          case other
          with True sk Some Inl show ?thesis by (subst rotationLoop.simps) simp
        qed
      qed
    qed
  qed
qed

lemma good_push:
  assumes "good p"
  shows "good (pushConfigured nm v p)"
proof -
  obtain cfg ks where p: "p = (cfg, ks)" by (cases p)
  from assms p have wn: "wellNamed ks" and m: "\<forall>k \<in> set cfg. ks (name k) = Some k"
    by (simp_all add: good_def)
  show ?thesis
  proof (cases "truthy v")
    case False
    with assms p show ?thesis by (simp add: pushConfigured_def)
  next
    case True
    show ?thesis
    proof (cases "ks nm")
      case (Some state)
      with wn have "name state = nm" by (simp add: wellNamed_def)
      with Some True wn m p show ?thesis
        by (simp add: pushConfigured_def getOrCreateKeyState_def good_def)
    next
      case None
      let ?fresh = "\<lparr>key = the v, name = nm, isHealthy = True, lastError = None,
                     lastUsed = None, requestCount = 0\<rparr>"
      have w': "wellNamed (ks(nm \<mapsto> ?fresh))"
        using wn by (simp add: wellNamed_def)
      have m': "\<forall>k \<in> set cfg. (ks(nm \<mapsto> ?fresh)) (name k) = Some k"
        using m None by auto
      from None True p w' m' show ?thesis
        by (simp add: pushConfigured_def getOrCreateKeyState_def good_def Let_def)
    qed
  qed
qed

lemma good_configured:
  assumes "wellNamed ks" and "getConfiguredKeys e ks = (cfg, ks1)"
  shows "wellNamed ks1 \<and> (\<forall>k \<in> set cfg. ks1 (name k) = Some k)"
proof -
  have "good ([], ks)" using assms(1) by (simp add: good_def)
  then have "good (getConfiguredKeys e ks)"
    unfolding getConfiguredKeys_def by (intro good_push)
  with assms(2) show ?thesis by (simp add: good_def)
qed

lemma selectKey_stored:
  assumes "wellNamed ks" and "selectKey e ks = (Some s, ks1)"
  shows "wellNamed ks1 \<and> ks1 (name s) = Some s"
proof -
  obtain cfg st where c: "getConfiguredKeys e ks = (cfg, st)" by (cases "getConfiguredKeys e ks")
  from good_configured [OF assms(1) c]
  have w: "wellNamed st" and m: "\<forall>k \<in> set cfg. st (name k) = Some k"
    by simp_all
  show ?thesis
  proof (cases "\<exists>k \<in> set cfg. isHealthy k")
    case True
    from selectKey_healthy [OF c True] obtain s' where
      "selectKey e ks = (Some s', st)" and "s' \<in> set cfg" by blast
    with assms(2) have "s = s'" and "ks1 = st" by simp_all
    with w m \<open>s' \<in> set cfg\<close> show ?thesis by simp
  next
    case False
    from assms(2) c have "cfg \<noteq> []" by (auto simp: selectKey_def)
    from selectKey_fallback [OF c this] False obtain s' where
      "s' \<in> set cfg" and
      "selectKey e ks = (Some (s'\<lparr>isHealthy := True\<rparr>), st(name s' \<mapsto> s'\<lparr>isHealthy := True\<rparr>))"
      by blast
    with assms(2) have s: "s = s'\<lparr>isHealthy := True\<rparr>"
      and k: "ks1 = st(name s' \<mapsto> s'\<lparr>isHealthy := True\<rparr>)"
      by (metis Pair_inject option.inject)+
    have "name s = name s'" using s by simp
    moreover have "wellNamed (st(name s' \<mapsto> s))"
      using w \<open>name s = name s'\<close> by (simp add: wellNamed_def)
    ultimately show ?thesis unfolding k s [symmetric] by simp
  qed
qed

lemma markKeyUnhealthy_wellNamed: "wellNamed ks \<Longrightarrow> wellNamed (markKeyUnhealthy nm err ks)"
  by (auto simp: wellNamed_def markKeyUnhealthy_def split: option.splits)

lemma markKeyUnhealthy_marks:
  "ks nm = Some k \<Longrightarrow>
   markKeyUnhealthy nm err ks nm = Some (k\<lparr>isHealthy := False, lastError := Some err\<rparr>)"
  by (simp add: markKeyUnhealthy_def)

lemma push_keeps:
  "snd p n = Some k \<Longrightarrow> snd (pushConfigured nm v p) n = Some k"
  by (cases p) (auto simp: pushConfigured_def getOrCreateKeyState_def Let_def split: option.splits)

lemma configured_keeps:
  assumes "ks n = Some k" and "getConfiguredKeys e ks = (cfg, ks1)"
  shows "ks1 n = Some k"
proof -
  have "snd (getConfiguredKeys e ks) n = Some k"
    unfolding getConfiguredKeys_def using assms(1) by (intro push_keeps) simp
  with assms(2) show ?thesis by simp
qed

lemma next_differs:
  assumes wn: "wellNamed ks1" and st: "ks1 nm = Some k"
    and sel: "selectKey e (markKeyUnhealthy nm err ks1) = (Some s, ks3)"
    and h: "\<exists>k \<in> set (fst (getConfiguredKeys e (markKeyUnhealthy nm err ks1))). isHealthy k"
  shows "name s \<noteq> nm \<and> isHealthy s"
proof -
  let ?ks2 = "markKeyUnhealthy nm err ks1"
  obtain cfg st2 where c: "getConfiguredKeys e ?ks2 = (cfg, st2)" by (cases "getConfiguredKeys e ?ks2")
  have w2: "wellNamed ?ks2" using wn by (rule markKeyUnhealthy_wellNamed)
  from h c have "\<exists>k \<in> set cfg. isHealthy k" by simp
  from selectKey_healthy [OF c this] sel have s: "s \<in> set cfg" "isHealthy s" "ks3 = st2" by auto
  from good_configured [OF w2 c] s have "st2 (name s) = Some s" by auto
  then have named: "st2 (name s) = Some s" .
  have "?ks2 nm = Some (k\<lparr>isHealthy := False, lastError := Some err\<rparr>)"
    using st by (rule markKeyUnhealthy_marks)
  from configured_keeps [OF this c]
  have "st2 nm = Some (k\<lparr>isHealthy := False, lastError := Some err\<rparr>)" .
  with named s(2) show ?thesis by auto
qed

lemma retry_step:
  assumes "attemptFails e gemini request attempt ks keyInfo ksSel message" and "retryable message"
  shows "rotationLoop e gemini request now attempt lastErr ks calls
         = rotationLoop e gemini request now (attempt + 1) (Some message)
             (markKeyUnhealthy (name keyInfo) (unhealthyReason message) ksSel)
             (calls @ [name keyInfo])"
  using assms
  by (subst rotationLoop.simps) (auto simp: attemptFails_def retryable_def unhealthyReason_def)

lemma last_attempt:
  "returned (rotationLoop e gemini request now maxRetries (Some message) ks calls) = Inl message"
  by (subst rotationLoop.simps) simp

lemma other_step:
  assumes "attemptFails e gemini request attempt ks keyInfo ksSel message"
    and "\<not> retryable message"
  shows "rotationLoop e gemini request now attempt lastErr ks calls
         = \<lparr>returned = Inl message, states = ksSel, called = calls @ [name keyInfo]\<rparr>"
  using assms
  by (subst rotationLoop.simps) (auto simp: attemptFails_def retryable_def)

text \<open>
  C5, as the code has it: the loop calls the backend at most three times; a failure
  classified as rate-limited or as invalid marks the credential unhealthy and goes on
  to the next attempt, which on the last attempt ends the loop with that error; the
  next attempt uses the credential that \<open>selectKey\<close> returns, which is another,
  healthy one whenever a configured credential is still healthy; any other failure is
  returned at once, with the key states as \<open>selectKey\<close> left them and no further
  call.
\<close>

theorem rotation_policy:
  "length (called (generateWithRotation e0 gemini0 request0 now0 ks0)) \<le> 3
   \<and> (attemptFails e gemini request attempt ks keyInfo ksSel message \<and> retryable message \<longrightarrow>
        rotationLoop e gemini request now attempt lastErr ks calls
          = rotationLoop e gemini request now (attempt + 1) (Some message)
              (markKeyUnhealthy (name keyInfo) (unhealthyReason message) ksSel)
              (calls @ [name keyInfo])
        \<and> (attempt + 1 = maxRetries \<longrightarrow>
             returned (rotationLoop e gemini request now attempt lastErr ks calls) = Inl message)
        \<and> (wellNamed ks \<longrightarrow>
             (\<exists>k. markKeyUnhealthy (name keyInfo) (unhealthyReason message) ksSel (name keyInfo)
                    = Some k \<and> \<not> isHealthy k)
             \<and> (\<forall>s ks3.
                  selectKey e (markKeyUnhealthy (name keyInfo) (unhealthyReason message) ksSel)
                    = (Some s, ks3)
                  \<and> (\<exists>k \<in> set (fst (getConfiguredKeys e
                         (markKeyUnhealthy (name keyInfo) (unhealthyReason message) ksSel))).
                        isHealthy k)
                  \<longrightarrow> name s \<noteq> name keyInfo \<and> isHealthy s)))
   \<and> (attemptFails e' gemini' request' attempt' ks' keyInfo' ksSel' message'
        \<and> \<not> retryable message' \<longrightarrow>
        rotationLoop e' gemini' request' now' attempt' lastErr' ks' calls'
          = \<lparr>returned = Inl message', states = ksSel', called = calls' @ [name keyInfo']\<rparr>)"
proof (intro conjI impI allI)
  show "length (called (generateWithRotation e0 gemini0 request0 now0 ks0)) \<le> 3"
    using called_bound [of e0 gemini0 request0 now0 0 None ks0 "[]"]
    by (simp add: generateWithRotation_def maxRetries_def)
next
  assume h: "attemptFails e gemini request attempt ks keyInfo ksSel message \<and> retryable message"
  then show step: "rotationLoop e gemini request now attempt lastErr ks calls
          = rotationLoop e gemini request now (attempt + 1) (Some message)
              (markKeyUnhealthy (name keyInfo) (unhealthyReason message) ksSel)
              (calls @ [name keyInfo])"
    using retry_step by blast
  {
    assume "attempt + 1 = maxRetries"
    then show "returned (rotationLoop e gemini request now attempt lastErr ks calls) = Inl message"
      unfolding step by (simp only: last_attempt)
  }
  {
    assume wn: "wellNamed ks"
    from h have sel: "selectKey e ks = (Some keyInfo, ksSel)" by (simp add: attemptFails_def)
    from selectKey_stored [OF wn sel]
    have w1: "wellNamed ksSel" and st: "ksSel (name keyInfo) = Some keyInfo" by simp_all
    show "\<exists>k. markKeyUnhealthy (name keyInfo) (unhealthyReason message) ksSel (name keyInfo)
                = Some k \<and> \<not> isHealthy k"
      using markKeyUnhealthy_marks [of ksSel "name keyInfo" keyInfo "unhealthyReason message"] st
      by simp
    {
      fix s ks3
      assume "selectKey e (markKeyUnhealthy (name keyInfo) (unhealthyReason message) ksSel)
                    = (Some s, ks3)
                  \<and> (\<exists>k \<in> set (fst (getConfiguredKeys e
                         (markKeyUnhealthy (name keyInfo) (unhealthyReason message) ksSel))).
                        isHealthy k)"
      then show "name s \<noteq> name keyInfo" and "isHealthy s"
        using next_differs [of ksSel "name keyInfo" keyInfo e "unhealthyReason message" s ks3] w1 st
        by blast+
    }
  }
next
  assume "attemptFails e' gemini' request' attempt' ks' keyInfo' ksSel' message'
        \<and> \<not> retryable message'"
  then show "rotationLoop e' gemini' request' now' attempt' lastErr' ks' calls'
          = \<lparr>returned = Inl message', states = ksSel', called = calls' @ [name keyInfo']\<rparr>"
    using other_step by blast
qed

lemma toLowerCase_429: "toLowerCase ''429'' = ''429''"
  by (simp add: toLowerCase_def lowerChar_def)

lemma retryable_429: "retryable ''429'' \<and> unhealthyReason ''429'' = ''Rate limited''"
  by (simp add: retryable_def unhealthyReason_def isRateLimited_def toLowerCase_429 startsWith_def)

lemma toLowerCase_Boom: "toLowerCase ''Boom'' = ''boom''"
  by (simp add: toLowerCase_def lowerChar_def char_of_def bit_Suc_0_iff)

lemma not_retryable_Boom: "\<not> retryable ''Boom''"
  by (simp add: retryable_def isRateLimited_def isInvalidKey_def toLowerCase_Boom startsWith_def)

lemma wellNamed_empty: "wellNamed Map.empty"
  by (simp add: wellNamed_def)

lemma select_onePool:
  "selectKey onePool Map.empty
   = (Some (keyState ''primary'' True None), [''primary'' \<mapsto> keyState ''primary'' True None])"
  by (simp add: onePool_def selectKey_def pool_defs sort_defs)

lemma select_twoPool:
  "selectKey twoPool Map.empty = (Some (keyState ''fallback1'' True None), twoFresh)"
  by (simp add: twoPool_def twoFresh_def selectKey_def pool_defs sort_defs)

lemma select_twoPool_marked:
  "selectKey twoPool (markKeyUnhealthy ''fallback1'' err twoFresh)
   = (Some (keyState ''primary'' True None), markKeyUnhealthy ''fallback1'' err twoFresh)"
  by (simp add: twoPool_def twoFresh_def markKeyUnhealthy_def selectKey_def pool_defs sort_defs)

lemma select_twoPool_down:
  "selectKey twoPool
     (markKeyUnhealthy ''primary'' err (markKeyUnhealthy ''fallback1'' err twoFresh))
   = (Some ((keyState ''fallback1'' True None)\<lparr>lastError := Some err\<rparr>),
      (markKeyUnhealthy ''primary'' err (markKeyUnhealthy ''fallback1'' err twoFresh))
        (''fallback1'' \<mapsto> (keyState ''fallback1'' True None)\<lparr>lastError := Some err\<rparr>))"
  by (simp add: twoPool_def twoFresh_def markKeyUnhealthy_def selectKey_def pool_defs sort_defs)

lemma select_onePool_marked:
  "selectKey onePool
     (markKeyUnhealthy ''primary'' ''Rate limited'' [''primary'' \<mapsto> keyState ''primary'' True None])
   = (Some ((keyState ''primary'' True None)\<lparr>lastError := Some ''Rate limited''\<rparr>),
      [''primary'' \<mapsto> (keyState ''primary'' True None)\<lparr>lastError := Some ''Rate limited''\<rparr>])"
  by (simp add: onePool_def markKeyUnhealthy_def selectKey_def pool_defs sort_defs)

lemma fails_twoPool:
  "attemptFails twoPool limitedBackend emptyRequest 0 Map.empty
     (keyState ''fallback1'' True None) twoFresh ''429''"
  by (simp add: attemptFails_def maxRetries_def select_twoPool generateWithKey_def
      limitedBackend_def)

lemma toLowerCase_denied: "toLowerCase ''API key not valid'' = ''api key not valid''"
  by (simp add: toLowerCase_def lowerChar_def char_of_def bit_Suc_0_iff)

lemma retryable_denied:
  "retryable ''API key not valid''
   \<and> unhealthyReason ''API key not valid'' = ''Invalid API key''"
  by (simp add: retryable_def unhealthyReason_def isRateLimited_def isInvalidKey_def
      toLowerCase_denied startsWith_def)

lemma fails_denied_first:
  "attemptFails twoPool deniedBackend emptyRequest 0 Map.empty
     (keyState ''fallback1'' True None) twoFresh ''API key not valid''"
  by (simp add: attemptFails_def maxRetries_def select_twoPool generateWithKey_def
      deniedBackend_def)

lemma fails_denied_second:
  "attemptFails twoPool deniedBackend emptyRequest 1
     (markKeyUnhealthy ''fallback1'' ''Invalid API key'' twoFresh)
     (keyState ''primary'' True None)
     (markKeyUnhealthy ''fallback1'' ''Invalid API key'' twoFresh) ''API key not valid''"
  by (simp add: attemptFails_def maxRetries_def select_twoPool_marked generateWithKey_def
      deniedBackend_def)

lemma fails_denied_third:
  "attemptFails twoPool deniedBackend emptyRequest 2
     (markKeyUnhealthy ''primary'' ''Invalid API key''
        (markKeyUnhealthy ''fallback1'' ''Invalid API key'' twoFresh))
     ((keyState ''fallback1'' True None)\<lparr>lastError := Some ''Invalid API key''\<rparr>)
     ((markKeyUnhealthy ''primary'' ''Invalid API key''
         (markKeyUnhealthy ''fallback1'' ''Invalid API key'' twoFresh))
        (''fallback1'' \<mapsto>
           (keyState ''fallback1'' True None)\<lparr>lastError := Some ''Invalid API key''\<rparr>))
     ''API key not valid''"
  by (simp add: attemptFails_def maxRetries_def select_twoPool_down generateWithKey_def
      deniedBackend_def)

lemma loop_end:
  "rotationLoop e gemini request now 3 (Some message) ks calls
   = \<lparr>returned = Inl message, states = ks, called = calls\<rparr>"
  by (subst rotationLoop.simps) (simp add: maxRetries_def)

lemma fails_onePool_broken:
  "attemptFails onePool brokenBackend emptyRequest 0 Map.empty
     (keyState ''primary'' True None) [''primary'' \<mapsto> keyState ''primary'' True None] ''Boom''"
  by (simp add: attemptFails_def maxRetries_def select_onePool generateWithKey_def
      brokenBackend_def)

lemma fails_onePool_flaky:
  "attemptFails onePool flakyBackend emptyRequest 0 Map.empty
     (keyState ''primary'' True None) [''primary'' \<mapsto> keyState ''primary'' True None] ''429''"
  by (simp add: attemptFails_def maxRetries_def select_onePool generateWithKey_def
      flakyBackend_def)

lemma name_keyState: "name (keyState nm healthy used) = nm"
  by (simp add: keyState_def)

lemma requestCount_keyState: "requestCount (keyState nm healthy used) = 0"
  by (simp add: keyState_def)

text \<open>
  C5 on a fresh pool of two: when the backend is rate-limited, the first attempt marks the
  credential it used unhealthy and the next attempt gets the other one; when the backend
  rejects every credential as invalid, the three attempts use the first fallback, the
  primary and the first fallback again, and the loop ends with the last error. On a pool
  of one whose backend fails otherwise, the failure is returned at once.
\<close>

theorem rotation_policy_witness:
  "attemptFails twoPool limitedBackend emptyRequest 0 Map.empty
     (keyState ''fallback1'' True None) twoFresh ''429''
   \<and> retryable ''429'' \<and> wellNamed Map.empty
   \<and> rotationLoop twoPool limitedBackend emptyRequest 1000 0 None Map.empty []
       = rotationLoop twoPool limitedBackend emptyRequest 1000 1 (Some ''429'')
           (markKeyUnhealthy ''fallback1'' ''Rate limited'' twoFresh) [''fallback1'']
   \<and> selectKey twoPool (markKeyUnhealthy ''fallback1'' ''Rate limited'' twoFresh)
       = (Some (keyState ''primary'' True None),
          markKeyUnhealthy ''fallback1'' ''Rate limited'' twoFresh)
   \<and> retryable ''API key not valid''
   \<and> called (generateWithRotation twoPool deniedBackend emptyRequest 1000 Map.empty)
       = [''fallback1'', ''primary'', ''fallback1'']
   \<and> returned (generateWithRotation twoPool deniedBackend emptyRequest 1000 Map.empty)
       = Inl ''API key not valid''
   \<and> attemptFails onePool brokenBackend emptyRequest 0 Map.empty
       (keyState ''primary'' True None) [''primary'' \<mapsto> keyState ''primary'' True None] ''Boom''
   \<and> \<not> retryable ''Boom''
   \<and> rotationLoop onePool brokenBackend emptyRequest 1000 0 None Map.empty []
       = \<lparr>returned = Inl ''Boom'', states = [''primary'' \<mapsto> keyState ''primary'' True None],
          called = [''primary'']\<rparr>"
proof -
  let ?first = "markKeyUnhealthy ''fallback1'' ''Invalid API key'' twoFresh"
  let ?second = "markKeyUnhealthy ''primary'' ''Invalid API key'' ?first"
  let ?retried = "(keyState ''fallback1'' True None)\<lparr>lastError := Some ''Invalid API key''\<rparr>"
  have limited: "rotationLoop twoPool limitedBackend emptyRequest 1000 0 None Map.empty []
       = rotationLoop twoPool limitedBackend emptyRequest 1000 1 (Some ''429'')
           (markKeyUnhealthy ''fallback1'' ''Rate limited'' twoFresh) [''fallback1'']"
    and broken: "rotationLoop onePool brokenBackend emptyRequest 1000 0 None Map.empty []
       = \<lparr>returned = Inl ''Boom'', states = [''primary'' \<mapsto> keyState ''primary'' True None],
          called = [''primary'']\<rparr>"
    using rotation_policy [where e = twoPool and gemini = limitedBackend
        and request = emptyRequest and attempt = 0 and ks = Map.empty
        and keyInfo = "keyState ''fallback1'' True None" and ksSel = twoFresh
        and message = "''429''" and now = 1000 and lastErr = None and calls = "[]"
        and e' = onePool and gemini' = brokenBackend and request' = emptyRequest
        and attempt' = 0 and ks' = Map.empty and keyInfo' = "keyState ''primary'' True None"
        and ksSel' = "[''primary'' \<mapsto> keyState ''primary'' True None]"
        and message' = "''Boom''" and now' = 1000 and lastErr' = None and calls' = "[]"]
      fails_twoPool fails_onePool_broken retryable_429 not_retryable_Boom
    by (simp_all add: name_keyState)
  have one: "rotationLoop twoPool deniedBackend emptyRequest 1000 0 None Map.empty []
       = rotationLoop twoPool deniedBackend emptyRequest 1000 1 (Some ''API key not valid'')
           ?first [''fallback1'']"
    using rotation_policy [where e = twoPool and gemini = deniedBackend
        and request = emptyRequest and attempt = 0 and ks = Map.empty
        and keyInfo = "keyState ''fallback1'' True None" and ksSel = twoFresh
        and message = "''API key not valid''" and now = 1000 and lastErr = None
        and calls = "[]"]
      fails_denied_first retryable_denied
    by (simp add: name_keyState numeral_2_eq_2 numeral_3_eq_3)
  have two: "rotationLoop twoPool deniedBackend emptyRequest 1000 1 (Some ''API key not valid'')
           ?first [''fallback1'']
       = rotationLoop twoPool deniedBackend emptyRequest 1000 2 (Some ''API key not valid'')
           ?second [''fallback1'', ''primary'']"
    using rotation_policy [where e = twoPool and gemini = deniedBackend
        and request = emptyRequest and attempt = 1 and ks = ?first
        and keyInfo = "keyState ''primary'' True None" and ksSel = ?first
        and message = "''API key not valid''" and now = 1000
        and lastErr = "Some ''API key not valid''" and calls = "[''fallback1'']"]
      fails_denied_second retryable_denied
    by (simp add: name_keyState numeral_2_eq_2 numeral_3_eq_3)
  have three: "rotationLoop twoPool deniedBackend emptyRequest 1000 2 (Some ''API key not valid'')
           ?second [''fallback1'', ''primary'']
       = rotationLoop twoPool deniedBackend emptyRequest 1000 3 (Some ''API key not valid'')
           (markKeyUnhealthy ''fallback1'' ''Invalid API key''
              (?second(''fallback1'' \<mapsto> ?retried)))
           [''fallback1'', ''primary'', ''fallback1'']"
    using rotation_policy [where e = twoPool and gemini = deniedBackend
        and request = emptyRequest and attempt = 2 and ks = ?second
        and keyInfo = ?retried and ksSel = "?second(''fallback1'' \<mapsto> ?retried)"
        and message = "''API key not valid''" and now = 1000
        and lastErr = "Some ''API key not valid''" and calls = "[''fallback1'', ''primary'']"]
      fails_denied_third retryable_denied
    by (simp add: name_keyState numeral_2_eq_2 numeral_3_eq_3)
  have run: "generateWithRotation twoPool deniedBackend emptyRequest 1000 Map.empty
       = \<lparr>returned = Inl ''API key not valid'',
          states = markKeyUnhealthy ''fallback1'' ''Invalid API key''
                     (?second(''fallback1'' \<mapsto> ?retried)),
          called = [''fallback1'', ''primary'', ''fallback1'']\<rparr>"
    unfolding generateWithRotation_def one two three by (rule loop_end)
  show ?thesis
    using limited broken fails_twoPool fails_onePool_broken retryable_429 not_retryable_Boom
      retryable_denied wellNamed_empty select_twoPool_marked [of "''Rate limited''"]
    unfolding run by simp
qed

lemma flaky_second_attempt:
  "rotationLoop onePool flakyBackend emptyRequest 1000 1 (Some ''429'')
     (markKeyUnhealthy ''primary'' ''Rate limited''
        [''primary'' \<mapsto> keyState ''primary'' True None])
     [''primary'']
   = \<lparr>returned = Inr \<lparr>resultText = [], model = ''gemini-1.5-flash'',
               usage = \<lparr>promptTokens = 0, completionTokens = 0, totalTokens = 0\<rparr>,
               keyUsed = ''primary''\<rparr>,
      states = [''primary'' \<mapsto> (keyState ''primary'' True (Some 1000))\<lparr>requestCount := 1\<rparr>],
      called = [''primary'', ''primary'']\<rparr>"
proof -
  have "rotationLoop onePool flakyBackend emptyRequest 1000 1 (Some ''429'')
     (markKeyUnhealthy ''primary'' ''Rate limited''
        [''primary'' \<mapsto> keyState ''primary'' True None])
     [''primary'']
   = \<lparr>returned = Inr \<lparr>resultText = [], model = ''gemini-1.5-flash'',
               usage = \<lparr>promptTokens = 0, completionTokens = 0, totalTokens = 0\<rparr>,
               keyUsed = ''primary''\<rparr>,
      states = [''primary'' \<mapsto>
        (keyState ''primary'' True None)\<lparr>lastError := Some ''Rate limited'',
           lastUsed := Some 1000, requestCount := 1, isHealthy := True, lastError := None\<rparr>],
      called = [''primary'', ''primary'']\<rparr>"
    by (subst rotationLoop.simps)
       (simp add: maxRetries_def select_onePool_marked generateWithKey_def flakyBackend_def
          okResponse_def name_keyState requestCount_keyState)
  then show ?thesis by (simp add: keyState_def)
qed

text \<open>
  C5 as stated fails: with one credential configured, the attempt after a rate-limited
  failure calls the backend with the same credential.
\<close>

theorem retry_same_credential_counterexample:
  "called (generateWithRotation onePool flakyBackend emptyRequest 1000 Map.empty)
     = [''primary'', ''primary'']
   \<and> returned (generateWithRotation onePool flakyBackend emptyRequest 1000 Map.empty)
       = Inr \<lparr>resultText = [], model = ''gemini-1.5-flash'',
               usage = \<lparr>promptTokens = 0, completionTokens = 0, totalTokens = 0\<rparr>,
               keyUsed = ''primary''\<rparr>"
proof -
  have "generateWithRotation onePool flakyBackend emptyRequest 1000 Map.empty
        = rotationLoop onePool flakyBackend emptyRequest 1000 1 (Some ''429'')
            (markKeyUnhealthy ''primary'' ''Rate limited''
               [''primary'' \<mapsto> keyState ''primary'' True None])
            [''primary'']"
    unfolding generateWithRotation_def
    using retry_step [OF fails_onePool_flaky, of 1000 None "[]"] retryable_429
    by (simp add: name_keyState)
  then show ?thesis
    by (simp only: flaky_second_attempt) simp
qed

subsection \<open>The generate endpoint\<close>

lemma handler_limit_down:
  assumes "accepted request body p" and "RatelimitLimit \<in> down"
  shows "generate_handler e down gemini now r ks request
         = quiet (Inl (StoreError RatelimitLimit)) r ks"
  using assms by (simp add: generate_handler_def accepted_def case_prod_beta Let_def)

lemma handler_limited:
  assumes "accepted request body p" and "RatelimitLimit \<notin> down"
    and "ratelimit_limit (limiterOf request) r now (fst (getUserIdentifier request)) = (res, r1)"
    and "\<not> success res"
  shows "generate_handler e down gemini now r ks request
         = quiet (Inr (jsonResponse
             (ErrorResponse ''Rate limit exceeded'' ''RATE_LIMIT_EXCEEDED''
                (Some (ceilDiv (reset res - now) 1000)))
             429
             [(''X-RateLimit-Limit'', limit res), (''X-RateLimit-Remaining'', 0),
              (''X-RateLimit-Reset'', reset res),
              (''Retry-After'', ceilDiv (reset res - now) 1000)])) r1 ks"
  using assms
  by (simp add: generate_handler_def accepted_def limiterOf_def case_prod_beta Let_def)

lemma handler_admitted:
  assumes "accepted request body p" and "RatelimitLimit \<notin> down"
    and "ratelimit_limit (limiterOf request) r now (fst (getUserIdentifier request)) = (res, r1)"
    and "success res" and "\<not> checkBudgetExceeded e down r1 now"
    and "returned (generateWithRotation e gemini (requestOf body p) now ks) = Inr result"
  shows "response (generate_handler e down gemini now r ks request)
         = Inr (jsonResponse
             (GenerateResponse (resultText result) (GenerateResult.model result)
                (remaining res - 1) (limit res) (reset res))
             200
             [(''X-RateLimit-Limit'', limit res),
              (''X-RateLimit-Remaining'', remaining res - 1),
              (''X-RateLimit-Reset'', reset res)])
         \<and> tracked (generate_handler e down gemini now r ks request)
           = Some \<lparr>timestamp = now, userId = fst (getUserIdentifier request),
                   tier = snd (getUserIdentifier request),
                   tokens = ceilDiv (int (length p) + int (length (resultText result))) 4,
                   cost = calculateCost
                     (ceilDiv (int (length p) + int (length (resultText result))) 4),
                   model = GenerateResult.model result,
                   keyUsed = GenerateResult.keyUsed result\<rparr>"
  using assms
  by (simp add: generate_handler_def accepted_def limiterOf_def requestOf_def case_prod_beta
      Let_def)

lemma budget_read_fails: "BudgetGet \<in> down \<Longrightarrow> \<not> checkBudgetExceeded e down r now"
  by (simp add: checkBudgetExceeded_def)

lemma handler_admitted_state:
  assumes "accepted request body p" and "RatelimitLimit \<notin> down"
    and "ratelimit_limit (limiterOf request) r now (fst (getUserIdentifier request)) = (res, r1)"
    and "success res" and "\<not> checkBudgetExceeded e down r1 now"
    and "returned (generateWithRotation e gemini (requestOf body p) now ks) = Inr result"
    and "tracked (generate_handler e down gemini now r ks request) = Some entry"
  shows "store (generate_handler e down gemini now r ks request)
           = fst (trackRequest e down r1 now entry)
         \<and> keys (generate_handler e down gemini now r ks request)
           = states (generateWithRotation e gemini (requestOf body p) now ks)"
  using assms
  by (simp add: generate_handler_def accepted_def limiterOf_def requestOf_def case_prod_beta
      Let_def)

lemma alert_frame:
  assumes "sendSlackAlert e down r now message = Inr (r2, sent)"
  shows "\<exists>a. r2 = r\<lparr>alerts := a\<rparr>"
proof (cases "r2 = r")
  case True
  then have "r2 = r\<lparr>alerts := alerts r\<rparr>" by simp
  then show ?thesis by blast
next
  case False
  with assms have "r2 = r\<lparr>alerts := (alerts r)((getTodayKey now, base64Head message)
      \<mapsto> (''1'', now + HOUR_MS))\<rparr>"
    by (simp add: sendSlackAlert_def Let_def split: if_splits option.splits)
  then show ?thesis by blast
qed

lemma check_frame:
  assumes "checkBudgetAndAlert e down r now = Inr (r2, sent)"
  shows "\<exists>a. r2 = r\<lparr>alerts := a\<rparr>"
proof -
  let ?m = "getTodayMetrics down r now"
  consider (crit) "estimatedCost ?m \<ge> budgetCapOf e"
    | (warn) "\<not> estimatedCost ?m \<ge> budgetCapOf e" "estimatedCost ?m \<ge> budgetCapOf e * (8 / 10)"
    | (none) "\<not> estimatedCost ?m \<ge> budgetCapOf e"
        "\<not> estimatedCost ?m \<ge> budgetCapOf e * (8 / 10)"
    by blast
  then show ?thesis
  proof cases
    case crit
    with assms have "sendSlackAlert e down r now
        (BudgetAlert (budgetCapOf e) (toFixed4 (estimatedCost ?m)) (totalRequests ?m)
           (totalTokens ?m)) = Inr (r2, sent)"
      by (simp add: checkBudgetAndAlert_def Let_def)
    then show ?thesis by (rule alert_frame)
  next
    case warn
    with assms have "sendSlackAlert e down r now
        (BudgetWarning (toFixed4 (estimatedCost ?m)) (budgetCapOf e)) = Inr (r2, sent)"
      by (simp add: checkBudgetAndAlert_def Let_def)
    then show ?thesis by (rule alert_frame)
  next
    case none
    with assms have "r2 = r" by (simp add: checkBudgetAndAlert_def Let_def)
    then have "r2 = r\<lparr>alerts := alerts r\<rparr>" by simp
    then show ?thesis by blast
  qed
qed

lemma pipeline_frame:
  "ratelimit (trackPipeline d entry r) = ratelimit r
   \<and> alerts (trackPipeline d entry r) = alerts r
   \<and> oauthStates (trackPipeline d entry r) = oauthStates r
   \<and> sessions (trackPipeline d entry r) = sessions r"
  by (simp add: trackPipeline_def incrby_def zincrby_def)

lemma pipeline_cost:
  "orZeroInt (counters (trackPipeline d entry r) (d, ''cost''))
   = orZeroInt (counters r (d, ''cost'')) + mathRound (cost entry * 100000)"
  by (simp add: trackPipeline_def incrby_def zincrby_def orZeroInt_def)

lemma track_cases:
  "fst (trackRequest e down r now entry) = r
   \<or> (\<exists>a. fst (trackRequest e down r now entry)
            = (trackPipeline (getTodayKey now) entry r)\<lparr>alerts := a\<rparr>)"
proof (cases "TrackPipeline \<in> down")
  case True
  then show ?thesis by (simp add: trackRequest_def)
next
  case False
  let ?r1 = "trackPipeline (getTodayKey now) entry r"
  show ?thesis
  proof (cases "checkBudgetAndAlert e down ?r1 now")
    case (Inl failed)
    with False have "fst (trackRequest e down r now entry) = ?r1\<lparr>alerts := alerts ?r1\<rparr>"
      by (simp add: trackRequest_def Let_def)
    then show ?thesis by blast
  next
    case (Inr p)
    obtain r2 sent where p: "p = (r2, sent)" by (cases p)
    from check_frame [OF Inr [unfolded p]] obtain a where "r2 = ?r1\<lparr>alerts := a\<rparr>" by blast
    with False Inr p have "fst (trackRequest e down r now entry) = ?r1\<lparr>alerts := a\<rparr>"
      by (simp add: trackRequest_def Let_def)
    then show ?thesis by blast
  qed
qed

lemma track_ratelimit: "ratelimit (fst (trackRequest e down r now entry)) = ratelimit r"
  using track_cases [of e down r now entry] by (auto simp: pipeline_frame)

lemma track_cost:
  assumes "TrackPipeline \<notin> down"
  shows "orZeroInt (counters (fst (trackRequest e down r now entry)) (getTodayKey now, ''cost''))
         = orZeroInt (counters r (getTodayKey now, ''cost'')) + mathRound (cost entry * 100000)"
proof -
  let ?r1 = "trackPipeline (getTodayKey now) entry r"
  have "\<exists>a. fst (trackRequest e down r now entry) = ?r1\<lparr>alerts := a\<rparr>"
  proof (cases "checkBudgetAndAlert e down ?r1 now")
    case (Inl failed)
    with assms have "fst (trackRequest e down r now entry) = ?r1\<lparr>alerts := alerts ?r1\<rparr>"
      by (simp add: trackRequest_def Let_def)
    then show ?thesis by blast
  next
    case (Inr p)
    obtain r2 sent where p: "p = (r2, sent)" by (cases p)
    from check_frame [OF Inr [unfolded p]] obtain a where "r2 = ?r1\<lparr>alerts := a\<rparr>" by blast
    with assms Inr p have "fst (trackRequest e down r now entry) = ?r1\<lparr>alerts := a\<rparr>"
      by (simp add: trackRequest_def Let_def)
    then show ?thesis by blast
  qed
  then obtain a where "fst (trackRequest e down r now entry) = ?r1\<lparr>alerts := a\<rparr>" by blast
  then show ?thesis by (simp add: pipeline_cost)
qed

lemma hashString_ip: "hashString ''1.2.3.4'' = ''vgq5c0''"
  by (simp add: hashString_def toString36.simps digits36_def)

lemma identifier_promptRequest: "getUserIdentifier promptRequest = (''ip:vgq5c0'', anonymous)"
  by (simp add: getUserIdentifier_def promptRequest_def clientIp_def hashString_ip)

lemma accepted_promptRequest: "accepted promptRequest hiBody [104, 105]"
  by (simp add: accepted_def promptRequest_def hiBody_def)

lemma rot_fresh:
  "generateWithRotation onePool meteredBackend req now Map.empty
   = \<lparr>returned = Inr meteredResult, states = [''primary'' \<mapsto> usedState 1 now],
      called = [''primary'']\<rparr>"
  unfolding generateWithRotation_def
  by (subst rotationLoop.simps)
     (simp add: maxRetries_def select_onePool generateWithKey_def meteredBackend_def
        meteredResult_def usedState_def keyState_def orZero_def)

lemma select_used:
  "selectKey onePool [''primary'' \<mapsto> usedState n t]
   = (Some (usedState n t), [''primary'' \<mapsto> usedState n t])"
  by (simp add: onePool_def selectKey_def pool_defs arraySort_def countAndMakeRun_def Let_def
      usedState_def)

lemma rot_used:
  "generateWithRotation onePool meteredBackend req now [''primary'' \<mapsto> usedState n t]
   = \<lparr>returned = Inr meteredResult, states = [''primary'' \<mapsto> usedState (n + 1) now],
      called = [''primary'']\<rparr>"
  unfolding generateWithRotation_def
  apply (subst rotationLoop.simps)
  apply (simp add: maxRetries_def select_used generateWithKey_def meteredBackend_def
        meteredResult_def orZero_def)
  apply (simp add: usedState_def)
  done

lemma charge_hi: "ceilDiv (2 + int (length okText)) 4 = 2"
  by (simp add: ceilDiv_def okText_def)

lemma round_charge: "mathRound (calculateCost 2 * 100000) = 0"
  by (simp add: mathRound_def calculateCost_def avgCostPer1KTokens_def floor_eq_iff)

lemma fields_promptRequest:
  "httpMethod promptRequest = ''POST''" "json promptRequest = Some hiBody"
  "GenerateBody.prompt hiBody = Some [104, 105]" "GenerateBody.temperature hiBody = None"
  "GenerateBody.maxTokens hiBody = None"
  by (simp_all add: promptRequest_def hiBody_def)

lemma fields_onePool: "DAILY_BUDGET_CAP onePool = None" "SLACK_WEBHOOK_URL onePool = None"
  by (simp_all add: onePool_def poolEnv_def)

lemma quotaState_start: "quotaState 0 emptyRedis Map.empty"
  by (simp add: quotaState_def emptyRedis_def orZeroInt_def)

lemma limiter_promptRequest: "limiterOf promptRequest = anonRatelimit"
  by (simp add: limiterOf_def identifier_promptRequest)

lemma limit_day_zero:
  assumes "0 \<le> now" and "now < 86400000"
    and "orZeroInt (ratelimit r (''rocket:ratelimit:anon'', ''ip:vgq5c0'', 0)) = k"
  shows "ratelimit_limit anonRatelimit r now ''ip:vgq5c0''
         = (\<lparr>limit = 5, remaining = max 0 (4 - k), reset = 86400000, success = (k + 1 \<le> 5)\<rparr>,
            r\<lparr>ratelimit := (ratelimit r)((''rocket:ratelimit:anon'', ''ip:vgq5c0'', 0) \<mapsto> k + 1)\<rparr>)"
  using assms
  by (simp add: ratelimit_limit_def usedTokens_def anonRatelimit_def DAY_MS_def orZeroInt_def
      Let_def)

lemma budget_open:
  assumes "0 \<le> now" and "now < 86400000" and "orZeroInt (counters r (0, ''cost'')) = 0"
  shows "\<not> checkBudgetExceeded onePool {} r now"
  using assms
  by (simp add: checkBudgetExceeded_def budgetCapOf_def fields_onePool getTodayKey_def
      DAY_MS_def Let_def)

lemma rotation_promptRequest:
  assumes "ks = Map.empty \<or> (\<exists>n t. ks = [''primary'' \<mapsto> usedState n t])"
  shows "returned (generateWithRotation onePool meteredBackend req now ks) = Inr meteredResult
         \<and> (\<exists>n. states (generateWithRotation onePool meteredBackend req now ks)
                  = [''primary'' \<mapsto> usedState n now])"
  using assms by (auto simp: rot_fresh rot_used)

lemma step_admitted:
  assumes q: "quotaState k r ks" and k: "0 \<le> k" "k < 5" and n: "0 \<le> now" "now < 86400000"
  shows "response (generate_handler onePool {} meteredBackend now r ks promptRequest)
           = okReply (3 - k)
         \<and> quotaState (k + 1)
             (store (generate_handler onePool {} meteredBackend now r ks promptRequest))
             (keys (generate_handler onePool {} meteredBackend now r ks promptRequest))"
proof -
  let ?out = "generate_handler onePool {} meteredBackend now r ks promptRequest"
  let ?r1 = "r\<lparr>ratelimit :=
      (ratelimit r)((''rocket:ratelimit:anon'', ''ip:vgq5c0'', 0) \<mapsto> k + 1)\<rparr>"
  let ?res = "\<lparr>limit = 5, remaining = max 0 (4 - k), reset = 86400000,
                 success = (k + 1 \<le> 5)\<rparr>"
  from q have u: "orZeroInt (ratelimit r (''rocket:ratelimit:anon'', ''ip:vgq5c0'', 0)) = k"
    and c: "orZeroInt (counters r (0, ''cost'')) = 0"
    and s: "ks = Map.empty \<or> (\<exists>n t. ks = [''primary'' \<mapsto> usedState n t])"
    by (simp_all add: quotaState_def)
  have lim: "ratelimit_limit (limiterOf promptRequest) r now (fst (getUserIdentifier promptRequest))
      = (?res, ?r1)"
    using limit_day_zero [OF n u] by (simp add: limiter_promptRequest identifier_promptRequest)
  have ok: "success ?res" using k by simp
  have nd: "RatelimitLimit \<notin> {}" by simp
  have open_: "\<not> checkBudgetExceeded onePool {} ?r1 now"
    using c by (intro budget_open n) simp
  from rotation_promptRequest [OF s, of "requestOf hiBody [104, 105]" now]
  obtain m where rot: "returned (generateWithRotation onePool meteredBackend
        (requestOf hiBody [104, 105]) now ks) = Inr meteredResult"
    and st: "states (generateWithRotation onePool meteredBackend
        (requestOf hiBody [104, 105]) now ks) = [''primary'' \<mapsto> usedState m now]"
    by blast
  note adm = handler_admitted [OF accepted_promptRequest nd lim ok open_ rot]
  from adm have resp: "response ?out = okReply (3 - k)"
    using k by (simp add: okReply_def meteredResult_def)
  from adm obtain entry where tr: "tracked ?out = Some entry"
    and ce: "cost entry = calculateCost 2"
    by (simp add: meteredResult_def charge_hi)
  from handler_admitted_state [OF accepted_promptRequest nd lim ok open_ rot tr]
  have sto: "store ?out = fst (trackRequest onePool {} ?r1 now entry)"
    and kys: "keys ?out = [''primary'' \<mapsto> usedState m now]"
    using st by simp_all
  have day: "getTodayKey now = 0" using n by (simp add: getTodayKey_def DAY_MS_def)
  have "orZeroInt (counters (store ?out) (0, ''cost'')) = 0"
    using track_cost [of "{}" onePool ?r1 now entry] c ce
    by (simp add: sto round_charge day)
  moreover have "orZeroInt (ratelimit (store ?out) (''rocket:ratelimit:anon'', ''ip:vgq5c0'', 0))
      = k + 1"
    by (simp add: sto track_ratelimit orZeroInt_def)
  ultimately have "quotaState (k + 1) (store ?out) (keys ?out)"
    unfolding quotaState_def kys by blast
  with resp show ?thesis by simp
qed

lemma step_limited:
  assumes q: "quotaState k r ks" and k: "5 \<le> k" and n: "0 \<le> now" "now < 86400000"
  shows "response (generate_handler onePool {} meteredBackend now r ks promptRequest)
           = limitedReply (ceilDiv (86400000 - now) 1000)"
proof -
  let ?r1 = "r\<lparr>ratelimit :=
      (ratelimit r)((''rocket:ratelimit:anon'', ''ip:vgq5c0'', 0) \<mapsto> k + 1)\<rparr>"
  let ?res = "\<lparr>limit = 5, remaining = max 0 (4 - k), reset = 86400000,
                 success = (k + 1 \<le> 5)\<rparr>"
  from q have u: "orZeroInt (ratelimit r (''rocket:ratelimit:anon'', ''ip:vgq5c0'', 0)) = k"
    by (simp add: quotaState_def)
  have lim: "ratelimit_limit (limiterOf promptRequest) r now (fst (getUserIdentifier promptRequest))
      = (?res, ?r1)"
    using limit_day_zero [OF n u] by (simp add: limiter_promptRequest identifier_promptRequest)
  have no: "\<not> success ?res" using k by simp
  have nd: "RatelimitLimit \<notin> {}" by simp
  from handler_limited [OF accepted_promptRequest nd lim no, of onePool meteredBackend ks]
  show ?thesis by (simp add: quiet_def limitedReply_def)
qed

text \<open>
  C2 on the code: an anonymous caller with the limit of 5 issues six generate requests
  on an empty store. The first five are admitted and answered 200, and their bodies
  and headers report the remaining values 3, 2, 1, 0 and -1, one less than the limiter
  returned; the sixth is answered 429 with the code \<open>RATE_LIMIT_EXCEEDED\<close> and a
  \<open>Retry-After\<close> of 86394 seconds.
\<close>

theorem anonymous_quota_run:
  "generateCalls onePool {} meteredBackend emptyRedis Map.empty promptRequest
     [1000, 2000, 3000, 4000, 5000, 6000]
   = [okReply 3, okReply 2, okReply 1, okReply 0, okReply (- 1), limitedReply 86394]"
proof -
  let ?h = "generate_handler onePool {} meteredBackend"
  let ?o1 = "?h 1000 emptyRedis Map.empty promptRequest"
  let ?o2 = "?h 2000 (store ?o1) (keys ?o1) promptRequest"
  let ?o3 = "?h 3000 (store ?o2) (keys ?o2) promptRequest"
  let ?o4 = "?h 4000 (store ?o3) (keys ?o3) promptRequest"
  let ?o5 = "?h 5000 (store ?o4) (keys ?o4) promptRequest"
  let ?o6 = "?h 6000 (store ?o5) (keys ?o5) promptRequest"
  have s1: "response ?o1 = okReply 3 \<and> quotaState 1 (store ?o1) (keys ?o1)"
    using step_admitted [OF quotaState_start, of 1000] by simp
  then have s2: "response ?o2 = okReply 2 \<and> quotaState 2 (store ?o2) (keys ?o2)"
    using step_admitted [of 1 "store ?o1" "keys ?o1" 2000] by simp
  then have s3: "response ?o3 = okReply 1 \<and> quotaState 3 (store ?o3) (keys ?o3)"
    using step_admitted [of 2 "store ?o2" "keys ?o2" 3000] by simp
  then have s4: "response ?o4 = okReply 0 \<and> quotaState 4 (store ?o4) (keys ?o4)"
    using step_admitted [of 3 "store ?o3" "keys ?o3" 4000] by simp
  then have s5: "response ?o5 = okReply (- 1) \<and> quotaState 5 (store ?o5) (keys ?o5)"
    using step_admitted [of 4 "store ?o4" "keys ?o4" 5000] by simp
  then have s6: "response ?o6 = limitedReply 86394"
    using step_limited [of 5 "store ?o5" "keys ?o5" 6000] by (simp add: ceilDiv_def)
  show ?thesis
    unfolding generateCalls.simps Let_def
    using s1 s2 s3 s4 s5 s6 by (intro list.inject [THEN iffD2] conjI) simp_all
qed

lemma handler_budget_exceeded:
  assumes "accepted request body p" and "RatelimitLimit \<notin> down"
    and "ratelimit_limit (limiterOf request) r now (fst (getUserIdentifier request)) = (res, r1)"
    and "success res" and "checkBudgetExceeded e down r1 now"
  shows "generate_handler e down gemini now r ks request
         = quiet (Inr (jsonResponse
             (ErrorResponse ''Service temporarily unavailable due to high demand''
                ''BUDGET_EXCEEDED'' None) 503 [])) r1 ks"
  using assms
  by (simp add: generate_handler_def accepted_def limiterOf_def case_prod_beta Let_def)

lemma handler_generation_failed:
  assumes "accepted request body p" and "RatelimitLimit \<notin> down"
    and "ratelimit_limit (limiterOf request) r now (fst (getUserIdentifier request)) = (res, r1)"
    and "success res" and "\<not> checkBudgetExceeded e down r1 now"
    and "returned (generateWithRotation e gemini (requestOf body p) now ks) = Inl message"
  shows "generate_handler e down gemini now r ks request
         = \<lparr>response = Inr (generationError message), store = r1,
            keys = states (generateWithRotation e gemini (requestOf body p) now ks),
            tracked = None, posted = [],
            backendCalls = called (generateWithRotation e gemini (requestOf body p) now ks)\<rparr>"
  using assms
  by (simp add: generate_handler_def accepted_def limiterOf_def requestOf_def case_prod_beta
      Let_def)

lemma handler_admitted_calls:
  assumes "accepted request body p" and "RatelimitLimit \<notin> down"
    and "ratelimit_limit (limiterOf request) r now (fst (getUserIdentifier request)) = (res, r1)"
    and "success res" and "\<not> checkBudgetExceeded e down r1 now"
  shows "backendCalls (generate_handler e down gemini now r ks request)
         = called (generateWithRotation e gemini (requestOf body p) now ks)"
proof (cases "returned (generateWithRotation e gemini (requestOf body p) now ks)")
  case (Inl message)
  from handler_generation_failed [OF assms Inl] show ?thesis by simp
next
  case (Inr result)
  with assms show ?thesis
    by (simp add: generate_handler_def accepted_def limiterOf_def requestOf_def case_prod_beta
        Let_def)
qed

lemma ceilDiv_ceiling: "ceilDiv a b = \<lceil>rat_of_int a / rat_of_int b\<rceil>"
proof -
  have "\<lceil>rat_of_int a / rat_of_int b\<rceil> = - \<lfloor>rat_of_int (- a) / rat_of_int b\<rfloor>"
    by (simp add: ceiling_def)
  also have "\<dots> = - ((- a) div b)" by (simp only: floor_divide_of_int_eq)
  finally show ?thesis by (simp add: ceilDiv_def)
qed

text \<open>
  C1, as the code has it: when the quota check cannot reach the store, the failure
  escapes the handler, which leaves the store and the key states untouched and calls
  no backend; when the read of the budget ledger fails after the quota check admitted
  the request, the budget counts as not exceeded and the handler goes on to the
  generation.
\<close>

theorem admission_store_failure:
  "(accepted request body p \<and> RatelimitLimit \<in> down \<longrightarrow>
      generate_handler e down gemini now r ks request
        = quiet (Inl (StoreError RatelimitLimit)) r ks)
   \<and> (accepted request' body' p' \<and> RatelimitLimit \<notin> down' \<and> BudgetGet \<in> down'
        \<and> ratelimit_limit (limiterOf request') r' now' (fst (getUserIdentifier request'))
            = (res, admittedStore)
        \<and> success res \<longrightarrow>
        \<not> checkBudgetExceeded e' down' admittedStore now'
        \<and> backendCalls (generate_handler e' down' gemini' now' r' ks' request')
            = called (generateWithRotation e' gemini' (requestOf body' p') now' ks'))"
  using handler_limit_down [of request body p down e gemini now r ks]
    handler_admitted_calls [of request' body' p' down' r' now' res admittedStore e' gemini' ks']
    budget_read_fails [of down' e' admittedStore now']
  by blast

lemma limit_spentStore:
  "ratelimit_limit (limiterOf promptRequest) spentStore 1000
     (fst (getUserIdentifier promptRequest))
   = (\<lparr>limit = 5, remaining = 4, reset = 86400000, success = True\<rparr>,
      spentStore\<lparr>ratelimit :=
        (ratelimit spentStore)((''rocket:ratelimit:anon'', ''ip:vgq5c0'', 0) \<mapsto> 1)\<rparr>)"
  using limit_day_zero [of 1000 spentStore 0]
  by (simp add: limiter_promptRequest identifier_promptRequest spentStore_def emptyRedis_def
      orZeroInt_def)

lemma spent_exceeded:
  "checkBudgetExceeded onePool {}
     (spentStore\<lparr>ratelimit :=
        (ratelimit spentStore)((''rocket:ratelimit:anon'', ''ip:vgq5c0'', 0) \<mapsto> 1)\<rparr>) 1000"
  by (simp add: checkBudgetExceeded_def budgetCapOf_def fields_onePool getTodayKey_def
      DAY_MS_def Let_def spentStore_def emptyRedis_def orZeroInt_def)

lemma calls_fresh:
  "called (generateWithRotation onePool meteredBackend req now Map.empty) = [''primary'']
   \<and> returned (generateWithRotation onePool meteredBackend req now Map.empty) = Inr meteredResult"
  by (simp add: rot_fresh)

text \<open>C1 on a failing quota check, and on a failing ledger read over an overspent ledger.\<close>

theorem admission_store_failure_witness:
  "generate_handler onePool {RatelimitLimit} meteredBackend 1000 emptyRedis Map.empty promptRequest
     = quiet (Inl (StoreError RatelimitLimit)) emptyRedis Map.empty
   \<and> backendCalls
        (generate_handler onePool {BudgetGet} meteredBackend 1000 spentStore Map.empty promptRequest)
       = [''primary'']"
  using admission_store_failure [where request = promptRequest and body = hiBody
      and p = "[104, 105]" and down = "{RatelimitLimit}" and e = onePool
      and gemini = meteredBackend and now = 1000 and r = emptyRedis and ks = Map.empty
      and request' = promptRequest and body' = hiBody and p' = "[104, 105]"
      and down' = "{BudgetGet}" and e' = onePool and gemini' = meteredBackend and now' = 1000
      and r' = spentStore and ks' = Map.empty
      and res = "\<lparr>limit = 5, remaining = 4, reset = 86400000, success = True\<rparr>"
      and admittedStore = "spentStore\<lparr>ratelimit :=
        (ratelimit spentStore)((''rocket:ratelimit:anon'', ''ip:vgq5c0'', 0) \<mapsto> 1)\<rparr>"]
    accepted_promptRequest limit_spentStore calls_fresh
  by simp

text \<open>
  C1 as stated fails: with 20 dollars on the ledger the request is answered 503
  \<open>BUDGET_EXCEEDED\<close> while the ledger can be read, and 200 when the read fails.
\<close>

theorem budget_read_failure_counterexample:
  "response
     (generate_handler onePool {} meteredBackend 1000 spentStore Map.empty promptRequest)
     = budgetReply
   \<and> response
        (generate_handler onePool {BudgetGet} meteredBackend 1000 spentStore Map.empty promptRequest)
       = okReply 3"
proof -
  have nd: "RatelimitLimit \<notin> {}" "RatelimitLimit \<notin> {BudgetGet}" by simp_all
  have "response
     (generate_handler onePool {} meteredBackend 1000 spentStore Map.empty promptRequest)
     = budgetReply"
    using handler_budget_exceeded [OF accepted_promptRequest nd(1) limit_spentStore _ spent_exceeded,
        where gemini = meteredBackend and ks = Map.empty]
    by (simp add: quiet_def budgetReply_def)
  moreover have "response
        (generate_handler onePool {BudgetGet} meteredBackend 1000 spentStore Map.empty promptRequest)
       = okReply 3"
    using handler_admitted [OF accepted_promptRequest nd(2) limit_spentStore _ _
        calls_fresh [THEN conjunct2]]
    by (simp add: budget_read_fails okReply_def meteredResult_def)
  ultimately show ?thesis by simp
qed

text \<open>
  C6, as the code has it: the event recorded for a successful generation charges
  the ceiling of a quarter of the code units of prompt and response as tokens, and a
  thousandth of the tokens times the rate per thousand tokens as cost; the usage
  that the backend reports plays no part.
\<close>

theorem recorded_charge:
  "accepted request body p
   \<and> tracked (generate_handler e down gemini now r ks request) = Some entry \<longrightarrow>
     (\<exists>result. returned (generateWithRotation e gemini (requestOf body p) now ks) = Inr result
        \<and> tokens entry
            = \<lceil>rat_of_int (int (length p) + int (length (resultText result))) / 4\<rceil>
        \<and> cost entry = rat_of_int (tokens entry) / 1000 * avgCostPer1KTokens)"
proof (intro impI, elim conjE)
  assume a: "accepted request body p"
    and t: "tracked (generate_handler e down gemini now r ks request) = Some entry"
  let ?rot = "generateWithRotation e gemini (requestOf body p) now ks"
  have nd: "RatelimitLimit \<notin> down"
  proof
    assume "RatelimitLimit \<in> down"
    from handler_limit_down [OF a this] t show False by (simp add: quiet_def)
  qed
  obtain res r1 where lim:
    "ratelimit_limit (limiterOf request) r now (fst (getUserIdentifier request)) = (res, r1)"
    by (cases "ratelimit_limit (limiterOf request) r now (fst (getUserIdentifier request))")
  have ok: "success res"
  proof (rule ccontr)
    assume "\<not> success res"
    from handler_limited [OF a nd lim this] t show False by (simp add: quiet_def)
  qed
  have open_: "\<not> checkBudgetExceeded e down r1 now"
  proof
    assume "checkBudgetExceeded e down r1 now"
    from handler_budget_exceeded [OF a nd lim ok this] t show False by (simp add: quiet_def)
  qed
  show "\<exists>result. returned ?rot = Inr result
        \<and> tokens entry
            = \<lceil>rat_of_int (int (length p) + int (length (resultText result))) / 4\<rceil>
        \<and> cost entry = rat_of_int (tokens entry) / 1000 * avgCostPer1KTokens"
  proof (cases "returned ?rot")
    case (Inl message)
    from handler_generation_failed [OF a nd lim ok open_ Inl] t show ?thesis by simp
  next
    case (Inr result)
    from handler_admitted [OF a nd lim ok open_ Inr] t
    have "tokens entry = ceilDiv (int (length p) + int (length (resultText result))) 4"
      and "cost entry = calculateCost (tokens entry)"
      by auto
    with Inr show ?thesis
      using ceilDiv_ceiling [of "int (length p) + int (length (resultText result))" 4]
      by (simp add: calculateCost_def)
  qed
qed

lemma limit_emptyRedis:
  "ratelimit_limit (limiterOf promptRequest) emptyRedis 1000
     (fst (getUserIdentifier promptRequest))
   = (\<lparr>limit = 5, remaining = 4, reset = 86400000, success = True\<rparr>,
      emptyRedis\<lparr>ratelimit :=
        (ratelimit emptyRedis)((''rocket:ratelimit:anon'', ''ip:vgq5c0'', 0) \<mapsto> 1)\<rparr>)"
  using limit_day_zero [of 1000 emptyRedis 0]
  by (simp add: limiter_promptRequest identifier_promptRequest emptyRedis_def orZeroInt_def)

lemma tracked_promptRequest:
  "tracked (generate_handler onePool {} meteredBackend 1000 emptyRedis Map.empty promptRequest)
   = Some \<lparr>timestamp = 1000, userId = ''ip:vgq5c0'', tier = anonymous, tokens = 2,
           cost = calculateCost 2, model = ''gemini-1.5-flash'', keyUsed = ''primary''\<rparr>"
proof -
  have nd: "RatelimitLimit \<notin> {}" by simp
  have open_: "\<not> checkBudgetExceeded onePool {}
      (emptyRedis\<lparr>ratelimit :=
        (ratelimit emptyRedis)((''rocket:ratelimit:anon'', ''ip:vgq5c0'', 0) \<mapsto> 1)\<rparr>) 1000"
    by (intro budget_open) (simp_all add: emptyRedis_def orZeroInt_def)
  from handler_admitted [OF accepted_promptRequest nd limit_emptyRedis _ open_
      calls_fresh [THEN conjunct2]]
  show ?thesis by (simp add: identifier_promptRequest meteredResult_def charge_hi)
qed

text \<open>C6 on a prompt of 2 and a response of 6 code units.\<close>

theorem recorded_charge_witness:
  "accepted promptRequest hiBody [104, 105]
   \<and> tracked (generate_handler onePool {} meteredBackend 1000 emptyRedis Map.empty promptRequest)
       = Some \<lparr>timestamp = 1000, userId = ''ip:vgq5c0'', tier = anonymous, tokens = 2,
               cost = 3 / 8000000, model = ''gemini-1.5-flash'', keyUsed = ''primary''\<rparr>"
  using recorded_charge [of promptRequest hiBody "[104, 105]" onePool "{}" meteredBackend 1000
      emptyRedis Map.empty]
    accepted_promptRequest tracked_promptRequest
  by (simp add: calculateCost_def avgCostPer1KTokens_def)

text \<open>
  C6 as stated fails: the backend reports 1000 tokens in total, and the recorded event
  charges the estimate of 2 tokens.
\<close>

theorem exact_usage_ignored_counterexample:
  "returned (generateWithRotation onePool meteredBackend (requestOf hiBody [104, 105]) 1000
      Map.empty) = Inr meteredResult
   \<and> Usage.totalTokens (usage meteredResult) = 1000
   \<and> map_option tokens
        (tracked (generate_handler onePool {} meteredBackend 1000 emptyRedis Map.empty
           promptRequest)) = Some 2"
  by (simp add: calls_fresh tracked_promptRequest meteredResult_def)

subsection \<open>The limits endpoint\<close>

lemma limits_store: "snd (limits_handler down now r request) = r"
  by (simp add: limits_handler_def case_prod_beta Let_def)

lemma window_day: "windowMs (if tr = authenticated then authRatelimit else anonRatelimit) = DAY_MS"
  by (simp add: authRatelimit_def anonRatelimit_def)

lemma getRemaining_window:
  assumes "windowMs rl = DAY_MS" and "getTodayKey n = getTodayKey now"
  shows "ratelimit_getRemaining rl r n uid = ratelimit_getRemaining rl r now uid"
  using assms by (simp add: ratelimit_getRemaining_def usedTokens_def getTodayKey_def Let_def)

lemma limits_window:
  assumes "getTodayKey n = getTodayKey now"
  shows "fst (limits_handler down n r request) = fst (limits_handler down now r request)"
  using getRemaining_window [OF window_day assms]
  by (simp add: limits_handler_def case_prod_beta Let_def)

lemma limitsCalls_store: "snd (limitsCalls down r request nows) = r"
proof (induction nows)
  case Nil
  show ?case by simp
next
  case (Cons now nows)
  then show ?case by (simp add: case_prod_beta limits_store)
qed

lemma limitsCalls_window:
  assumes "\<forall>n \<in> set nows. getTodayKey n = getTodayKey now"
  shows "fst (limitsCalls down r request nows)
         = replicate (length nows) (fst (limits_handler down now r request))"
  using assms
proof (induction nows)
  case Nil
  show ?case by simp
next
  case (Cons n nows)
  have "fst (limits_handler down n r request) = fst (limits_handler down now r request)"
    using limits_window [of n now down r request] Cons.prems by simp
  with Cons show ?case by (simp add: case_prod_beta limits_store)
qed

text \<open>
  C9: the limits handler returns the store it was given, so does any sequence of
  calls to it, and calls made within one window (no \<open>admit\<close> between them) all give
  the response of the first, with the same remaining value.
\<close>

theorem limits_read_only:
  "snd (limits_handler down now r request) = r
   \<and> snd (limitsCalls down r request nows) = r
   \<and> ((\<forall>n \<in> set nows. getTodayKey n = getTodayKey now) \<longrightarrow>
        fst (limitsCalls down r request nows)
          = replicate (length nows) (fst (limits_handler down now r request)))"
  using limits_store limitsCalls_store limitsCalls_window by blast

lemma limits_usedTwice:
  "fst (limits_handler {} 1000 usedTwice (plainRequest ''GET'' Map.empty)) = limitsReply 3"
proof -
  have "getUserIdentifier (plainRequest ''GET'' Map.empty) = (''ip:4pl4mu'', anonymous)"
    by (simp add: getUserIdentifier_def plainRequest_def clientIp_def hashString_unknown)
  then show ?thesis
    by (simp add: limits_handler_def plainRequest_def ratelimit_getRemaining_def usedTokens_def
        anonRatelimit_def DAY_MS_def usedTwice_def emptyRedis_def limitsReply_def Let_def)
qed

text \<open>C9 on three calls of a caller who has used two of five units.\<close>

theorem limits_read_only_witness:
  "limitsCalls {} usedTwice (plainRequest ''GET'' Map.empty) [1000, 2000, 3000]
   = ([limitsReply 3, limitsReply 3, limitsReply 3], usedTwice)"
  using limits_read_only [of "{}" 1000 usedTwice "plainRequest ''GET'' Map.empty"
      "[1000, 2000, 3000]"] limits_usedTwice
  by (simp add: getTodayKey_def DAY_MS_def prod_eq_iff)

subsection \<open>The OAuth state\<close>

lemma redirectParam_truthy: "redirectParam request \<noteq> []"
  by (cases "query request ''redirect''") (simp_all add: redirectParam_def)

lemma github_stores:
  assumes "httpMethod request = ''GET''" and "t1 < t0 + STATE_TTL_MS"
  shows "getLive (oauthStates (snd (github_handler r t0 state request)) state) t1
         = Some (redirectParam request)"
  using assms by (simp add: github_handler_def storeState_def getLive_def)

lemma validate_live:
  assumes "getLive (oauthStates r state) now = Some redirect" and "redirect \<noteq> []"
    and "StateGet \<notin> down" and "StateDel \<notin> down"
  shows "validateState down r now state
         = (Inr (Some redirect), r\<lparr>oauthStates := (oauthStates r)(state := None)\<rparr>)"
  using assms by (simp add: validateState_def)

lemma validate_deleted:
  assumes "oauthStates r state = None" and "StateGet \<notin> down"
  shows "validateState down r now state = (Inr None, r)"
  using assms by (simp add: validateState_def getLive_def)

lemma callback_calls:
  assumes "snd (snd (callback_handler down github r now request)) \<noteq> []"
  shows "\<exists>redirect. redirect \<noteq> []
           \<and> fst (validateState down r now (the (query request ''state''))) = Inr (Some redirect)"
proof -
  let ?v = "validateState down r now (the (query request ''state''))"
  have m: "httpMethod request = ''GET''"
  proof (rule ccontr)
    assume "httpMethod request \<noteq> ''GET''"
    with assms show False by (simp add: callback_handler_def)
  qed
  have e: "\<not> truthy (query request ''error'')"
  proof
    assume "truthy (query request ''error'')"
    with assms m show False by (simp add: callback_handler_def Let_def)
  qed
  have c: "truthy (query request ''code'') \<and> truthy (query request ''state'')"
  proof (rule ccontr)
    assume "\<not> (truthy (query request ''code'') \<and> truthy (query request ''state''))"
    with assms m e show False by (simp add: callback_handler_def Let_def)
  qed
  obtain res r1 where v: "?v = (res, r1)" by (cases ?v)
  show ?thesis
  proof (cases res)
    case (Inl failed)
    with assms m e c v show ?thesis by (simp add: callback_handler_def Let_def)
  next
    case (Inr stored)
    have "truthy stored"
    proof (rule ccontr)
      assume "\<not> truthy stored"
      with assms m e c v Inr show False by (simp add: callback_handler_def Let_def)
    qed
    then obtain redirect where "stored = Some redirect" and "redirect \<noteq> []"
      by (cases stored) simp_all
    with Inr v show ?thesis by simp
  qed
qed

text \<open>
  C8: for a state whose record is live with a redirect, the first \<open>validateState\<close>
  returns the redirect and deletes the record, and a second one returns not-found and
  changes nothing; the record that the authorization endpoint stores is of that kind
  for ten minutes; and the callback calls the provider (token exchange first) only
  when the validation of the state has returned a redirect.
\<close>

theorem oauth_state_single_use:
  "(getLive (oauthStates r state) tFirst = Some redirect \<and> redirect \<noteq> []
      \<and> StateGet \<notin> down \<and> StateDel \<notin> down \<longrightarrow>
      validateState down r tFirst state
        = (Inr (Some redirect), r\<lparr>oauthStates := (oauthStates r)(state := None)\<rparr>)
      \<and> validateState down (r\<lparr>oauthStates := (oauthStates r)(state := None)\<rparr>) tReplay state
          = (Inr None, r\<lparr>oauthStates := (oauthStates r)(state := None)\<rparr>))
   \<and> (httpMethod request = ''GET'' \<and> tLive < tStart + STATE_TTL_MS \<longrightarrow>
        getLive (oauthStates (snd (github_handler rStart tStart stateStart request)) stateStart) tLive
          = Some (redirectParam request)
        \<and> redirectParam request \<noteq> [])
   \<and> (snd (snd (callback_handler down' github r' now' request')) \<noteq> [] \<longrightarrow>
        (\<exists>stored. stored \<noteq> []
           \<and> fst (validateState down' r' now' (the (query request' ''state'')))
               = Inr (Some stored)))"
proof (intro conjI impI)
  assume h: "getLive (oauthStates r state) tFirst = Some redirect \<and> redirect \<noteq> []
      \<and> StateGet \<notin> down \<and> StateDel \<notin> down"
  then show "validateState down r tFirst state
        = (Inr (Some redirect), r\<lparr>oauthStates := (oauthStates r)(state := None)\<rparr>)"
    by (simp add: validate_live)
  from h show "validateState down (r\<lparr>oauthStates := (oauthStates r)(state := None)\<rparr>) tReplay state
          = (Inr None, r\<lparr>oauthStates := (oauthStates r)(state := None)\<rparr>)"
    by (intro validate_deleted) simp_all
next
  assume "httpMethod request = ''GET'' \<and> tLive < tStart + STATE_TTL_MS"
  then show "getLive (oauthStates (snd (github_handler rStart tStart stateStart request)) stateStart) tLive
          = Some (redirectParam request)"
    by (simp add: github_stores)
next
  show "redirectParam request \<noteq> []" by (rule redirectParam_truthy)
next
  assume "snd (snd (callback_handler down' github r' now' request')) \<noteq> []"
  then show "\<exists>stored. stored \<noteq> []
           \<and> fst (validateState down' r' now' (the (query request' ''state'')))
               = Inr (Some stored)"
    by (rule callback_calls)
qed

lemma fields_callbackRequest:
  "httpMethod callbackRequest = ''GET''" "query callbackRequest ''code'' = Some ''c0de''"
  "query callbackRequest ''state'' = Some ''5ca1ab1e''" "query callbackRequest ''error'' = None"
  "query callbackRequest ''error_description'' = None"
  by (simp_all add: callbackRequest_def)

lemma live_pending:
  "getLive (oauthStates pendingLogin ''5ca1ab1e'') 1000 = Some ''/cli-callback''"
  unfolding pendingLogin_def
  by (subst github_stores)
     (simp_all add: loginRequest_def STATE_TTL_MS_def redirectParam_def)

lemma validate_pending:
  "validateState {} pendingLogin 1000 ''5ca1ab1e''
   = (Inr (Some ''/cli-callback''),
      pendingLogin\<lparr>oauthStates := (oauthStates pendingLogin)(''5ca1ab1e'' := None)\<rparr>)"
  by (rule validate_live [OF live_pending]) simp_all

lemma first_callback:
  "fst (callback_handler {} octoProvider pendingLogin 1000 callbackRequest)
     = \<lparr>status = 200, content = CliSuccessPage ''5e55'' ''octocat'', figures = []\<rparr>
   \<and> snd (snd (callback_handler {} octoProvider pendingLogin 1000 callbackRequest))
       = [ExchangeCode ''c0de'', GetUser ''gho_x'']
   \<and> oauthStates (fst (snd (callback_handler {} octoProvider pendingLogin 1000 callbackRequest)))
        ''5ca1ab1e'' = None"
  by (simp add: callback_handler_def fields_callbackRequest validate_pending octoProvider_def
      createSession_def startsWith_def Let_def)

lemma replayed_callback:
  assumes "oauthStates r ''5ca1ab1e'' = None"
  shows "callback_handler {} octoProvider r 2000 callbackRequest
         = (createErrorResponse ''invalid_state'' ''Invalid or expired state parameter'', r, [])"
  using validate_deleted [OF assms, of "{}" 2000]
  by (simp add: callback_handler_def fields_callbackRequest Let_def)

text \<open>C8 on a login whose callback arrives twice.\<close>

theorem oauth_state_single_use_witness:
  "validateState {} pendingLogin 1000 ''5ca1ab1e''
     = (Inr (Some ''/cli-callback''),
        pendingLogin\<lparr>oauthStates := (oauthStates pendingLogin)(''5ca1ab1e'' := None)\<rparr>)
   \<and> fst (validateState {}
          (pendingLogin\<lparr>oauthStates := (oauthStates pendingLogin)(''5ca1ab1e'' := None)\<rparr>)
          2000 ''5ca1ab1e'') = Inr None
   \<and> snd (snd (callback_handler {} octoProvider pendingLogin 1000 callbackRequest))
       = [ExchangeCode ''c0de'', GetUser ''gho_x'']
   \<and> fst (callback_handler {} octoProvider
          (fst (snd (callback_handler {} octoProvider pendingLogin 1000 callbackRequest)))
          2000 callbackRequest)
       = createErrorResponse ''invalid_state'' ''Invalid or expired state parameter''
   \<and> snd (snd (callback_handler {} octoProvider
          (fst (snd (callback_handler {} octoProvider pendingLogin 1000 callbackRequest)))
          2000 callbackRequest)) = []"
  using oauth_state_single_use [where r = pendingLogin and state = "''5ca1ab1e''" and tFirst = 1000
      and redirect = "''/cli-callback''" and down = "{}" and tReplay = 2000
      and request = loginRequest and tStart = 0 and tLive = 1000 and rStart = emptyRedis
      and stateStart = "''5ca1ab1e''" and down' = "{}" and github = octoProvider
      and r' = pendingLogin and now' = 1000 and request' = callbackRequest]
    live_pending first_callback
    replayed_callback [of "fst (snd (callback_handler {} octoProvider pendingLogin 1000
      callbackRequest))"]
  by simp

subsection \<open>Budget alerts\<close>






































end
